theory Spec2Isabelle
  imports Complex_Main "HOL-Library.Word"
begin

section \<open>Data model\<close>

text \<open>
  The development embeds \<^verbatim>\<open>Deisotoper::deisotopeAndSingleCharge\<close> (src/unnamed/part_001).
  A \<^verbatim>\<open>double\<close> or \<^verbatim>\<open>float\<close> of the source is a \<open>real\<close> here: rounding, NaN and the
  infinities are not modelled. The one place where the source can divide by zero on
  ordinary input, the intensity ratio, is written out (\<open>ratio_gt\<close>, \<open>ratio_lt\<close>).
\<close>

record Peak1D =
  getMZ :: real
  getIntensity :: real

record Precursor =
  prec_getMZ :: real
  prec_getCharge :: int

record IntegerDataArray =
  getName :: string
  ida_data :: "int list"

record MSSpectrum =
  peaks :: "Peak1D list"
  getIntegerDataArrays :: "IntegerDataArray list"
  getPrecursors :: "Precursor list"

text \<open>
  The arguments of the function after \<^verbatim>\<open>spec\<close>, under the names of the source.
  \<^verbatim>\<open>min_isopeaks\<close>, \<^verbatim>\<open>max_isopeaks\<close> and \<^verbatim>\<open>start_intensity_check\<close> are \<^verbatim>\<open>unsigned int\<close>;
  the only arithmetic on them is \<^verbatim>\<open>i + 1\<close> with \<^verbatim>\<open>i < max_isopeaks\<close>, which cannot wrap,
  so they are \<open>nat\<close>. \<^verbatim>\<open>min_charge\<close> and \<^verbatim>\<open>max_charge\<close> are \<^verbatim>\<open>int\<close>.
\<close>

record params =
  fragment_tolerance :: real
  fragment_unit_ppm :: bool
  min_charge :: int
  max_charge :: int
  keep_only_deisotoped :: bool
  min_isopeaks :: nat
  max_isopeaks :: nat
  make_single_charged :: bool
  annotate_charge :: bool
  annotate_iso_peak_count :: bool
  use_decreasing_model :: bool
  start_intensity_check :: nat
  add_up_intensity :: bool

text \<open>
  What the function uses and src/ does not hold: three constants of
  \<^verbatim>\<open>OpenMS/CONCEPT/Constants.h\<close>, \<^verbatim>\<open>Math::ppmToMass\<close>, \<^verbatim>\<open>MSSpectrum::findNearest\<close>
  (\<open>-1\<close> when no peak lies within the tolerance) and the \<^verbatim>\<open>WindowMower\<close> filter. They are
  parameters of the model. Of the filtered copy \<^verbatim>\<open>high_intensity_peaks\<close> the function
  reads only the last integer data array, the indices \<^verbatim>\<open>"index"\<close> of the peaks the filter
  retained; \<open>filterPeakSpectrum\<close> maps the peak list to that array.
\<close>

record collaborators =
  C13C12_MASSDIFF_U :: real
  PROTON_MASS :: real
  PROTON_MASS_U :: real
  ppmToMass :: "real \<Rightarrow> real \<Rightarrow> real"
  findNearest :: "Peak1D list \<Rightarrow> real \<Rightarrow> real \<Rightarrow> int"
  filterPeakSpectrum :: "Peak1D list \<Rightarrow> nat list"

datatype error = Precondition | IllegalArgument

text \<open>
  An accepted isotope run: the values of \<^verbatim>\<open>current_peak\<close>, \<^verbatim>\<open>q\<close> and \<^verbatim>\<open>extensions\<close> when
  the block \<^verbatim>\<open>if (has_min_isopeaks)\<close> is entered (lines 224 and 315), and the pass it
  happened in.
\<close>

record run =
  run_seed :: nat
  run_charge :: int
  run_extensions :: "nat list"
  run_seed_pass :: bool

text \<open>
  The working arrays of the discovery phase (lines 102 to 106). \<^verbatim>\<open>size_t\<close> is 64 bits
  wide. \<open>accepted\<close> is a history variable: the source has no such array, the model
  appends to it where the source assigns a feature number, and nothing reads it.
  \<^verbatim>\<open>feature_number\<close> is an \<^verbatim>\<open>int\<close> counting accepted runs; each run has a seed of its
  own, so it stays below the number of peaks and is an unbounded \<open>int\<close> here.
\<close>

record discovery =
  mono_isotopic_peak :: "64 word list"
  features :: "int list"
  mono_iso_peak_intensity :: "real list"
  iso_peak_count :: "nat list"
  feature_number :: int
  accepted :: "run list"

section \<open>Discovery: seeds and their extension\<close>

text \<open>
  \<^verbatim>\<open>a / b > c\<close> and \<^verbatim>\<open>a / b < c\<close> of the source, for a positive constant \<open>c\<close>. With
  \<open>b = 0\<close> the quotient of the source is an infinity with the sign of \<open>a\<close>, or NaN
  when \<open>a = 0\<close> too (every comparison with NaN is false); HOL's \<open>a / 0\<close> is \<open>0\<close>.
\<close>

definition ratio_gt :: "real \<Rightarrow> real \<Rightarrow> real \<Rightarrow> bool" where
  "ratio_gt a b c = (if b = 0 then 0 < a else c < a / b)"

definition ratio_lt :: "real \<Rightarrow> real \<Rightarrow> real \<Rightarrow> bool" where
  "ratio_lt a b c = (if b = 0 then a < 0 else a / b < c)"

text \<open>
  Lines 179 and 180 (279 and 280): the peak nearest to the expected position of isotope
  \<open>i\<close>, or \<open>-1\<close>. For \<open>q = 0\<close> the source divides by zero and the expected position
  is infinite, where HOL's quotient is \<open>0\<close>: the model is that of the source for charges
  other than \<open>0\<close>, and the statements about accepted runs below take \<^verbatim>\<open>min_charge\<close> to be
  at least 1, as the spec does.
\<close>

definition candidate ::
  "collaborators \<Rightarrow> Peak1D list \<Rightarrow> real \<Rightarrow> int \<Rightarrow> real \<Rightarrow> nat \<Rightarrow> int" where
  "candidate E old current_mz q tolerance_dalton i =
     findNearest E old (current_mz + real i * C13C12_MASSDIFF_U E / real_of_int q)
       tolerance_dalton"

text \<open>
  The tests that end the extension at isotope \<open>i\<close>, in the order of the source: no peak
  (line 181), the decreasing model (line 193), the upper bound on the ratio (line 200)
  and the lower bound (line 208). Each of them sets
  \<^verbatim>\<open>has_min_isopeaks = (i >= min_isopeaks)\<close> and leaves the loop. The second copy of the
  loop (lines 277 to 313) has no lower bound: \<open>lb\<close> is true in the first copy only.
\<close>

definition breaks :: "params \<Rightarrow> bool \<Rightarrow> Peak1D list \<Rightarrow> nat \<Rightarrow> nat list \<Rightarrow> int \<Rightarrow> bool" where
  "breaks P lb old i extensions p =
     (p = - 1 \<or>
      (use_decreasing_model P \<and> start_intensity_check P \<le> i \<and>
       getIntensity (old ! last extensions) < getIntensity (old ! nat p)) \<or>
      (i = 1 \<and>
       ratio_gt (getIntensity (old ! nat p)) (getIntensity (old ! last extensions)) 10.0) \<or>
      (lb \<and> i = 1 \<and>
       ratio_lt (getIntensity (old ! nat p)) (getIntensity (old ! last extensions)) 0.01))"

text \<open>
  The loop \<^verbatim>\<open>for (unsigned int i = 1; i < max_isopeaks; ++i)\<close> (lines 177 to 222 and
  277 to 313). The result is \<^verbatim>\<open>extensions\<close>, \<^verbatim>\<open>has_min_isopeaks\<close> and the array
  \<^verbatim>\<open>iso_peak_count\<close>.
\<close>

function extend ::
  "collaborators \<Rightarrow> params \<Rightarrow> bool \<Rightarrow> Peak1D list \<Rightarrow> nat \<Rightarrow> real \<Rightarrow> int \<Rightarrow> real \<Rightarrow>
   nat \<Rightarrow> nat list \<Rightarrow> nat list \<Rightarrow> nat list \<times> bool \<times> nat list" where
  "extend E P lb old current_peak current_mz q tolerance_dalton i extensions ipc =
    (if i < max_isopeaks P then
       (if breaks P lb old i extensions (candidate E old current_mz q tolerance_dalton i)
        then (extensions, min_isopeaks P \<le> i, ipc)
        else extend E P lb old current_peak current_mz q tolerance_dalton (i + 1)
               (extensions @ [nat (candidate E old current_mz q tolerance_dalton i)])
               (if annotate_iso_peak_count P then ipc[current_peak := i + 1] else ipc))
     else (extensions, True, ipc))"
  by pat_completeness auto
termination
  by (relation "measure (\<lambda>(E, P, lb, old, cur, cmz, q, tol, i, exts, ipc). max_isopeaks P - i)")
    auto

declare extend.simps [simp del]

text \<open>Lines 163 and 263.\<close>

definition tolerance_dalton_of :: "collaborators \<Rightarrow> params \<Rightarrow> real \<Rightarrow> real" where
  "tolerance_dalton_of E P current_mz =
     (if fragment_unit_ppm P then ppmToMass E (fragment_tolerance P) current_mz
      else fragment_tolerance P)"

text \<open>
  Lines 110 to 117: \<^verbatim>\<open>has_precursor_data\<close> and \<^verbatim>\<open>precursor_mass\<close>, as an option.
\<close>

definition precursor_mass_of :: "collaborators \<Rightarrow> MSSpectrum \<Rightarrow> real option" where
  "precursor_mass_of E spec =
     (case getPrecursors spec of
        [pc] \<Rightarrow> Some (prec_getMZ pc * real_of_int (prec_getCharge pc)
                       - PROTON_MASS E * real_of_int (prec_getCharge pc))
      | _ \<Rightarrow> None)"

text \<open>Lines 166 to 173: the charge hypotheses the precursor mass rules out.\<close>

definition pruned :: "collaborators \<Rightarrow> real option \<Rightarrow> real \<Rightarrow> real \<Rightarrow> int \<Rightarrow> bool" where
  "pruned E precursor current_mz tolerance_dalton q =
     (case precursor of
        None \<Rightarrow> False
      | Some precursor_mass \<Rightarrow>
          precursor_mass + tolerance_dalton
            < current_mz * real_of_int q - PROTON_MASS E * real_of_int q)"

text \<open>
  Lines 224 to 238 and 315 to 329. The loop over \<^verbatim>\<open>extensions\<close> writes two arrays; the
  model writes one after the other. The cast of \<^verbatim>\<open>q\<close> to \<^verbatim>\<open>size_t\<close> is \<open>word_of_int\<close>.
\<close>

definition claim ::
  "params \<Rightarrow> bool \<Rightarrow> Peak1D list \<Rightarrow> nat \<Rightarrow> int \<Rightarrow> nat list \<Rightarrow> discovery \<Rightarrow> discovery" where
  "claim P lb old current_peak q extensions st =
     st\<lparr>mono_isotopic_peak := (mono_isotopic_peak st)[current_peak := word_of_int q],
        features := foldl (\<lambda>f e. f[e := feature_number st]) (features st) extensions,
        mono_iso_peak_intensity :=
          (if add_up_intensity P
           then foldl (\<lambda>m e. m[current_peak := m ! current_peak + getIntensity (old ! e)])
                  (mono_iso_peak_intensity st) (tl extensions)
           else mono_iso_peak_intensity st),
        feature_number := feature_number st + 1,
        accepted := accepted st @
          [\<lparr>run_seed = current_peak, run_charge = q, run_extensions = extensions,
            run_seed_pass = lb\<rparr>]\<rparr>"

text \<open>The body of the loop over \<^verbatim>\<open>q\<close> (lines 160 to 239 and 260 to 330).\<close>

definition try_charge ::
  "collaborators \<Rightarrow> params \<Rightarrow> bool \<Rightarrow> Peak1D list \<Rightarrow> real option \<Rightarrow> nat \<Rightarrow>
   discovery \<Rightarrow> int \<Rightarrow> discovery" where
  "try_charge E P lb old precursor current_peak st q =
     (if features st ! current_peak = - 1 then
        (let current_mz = getMZ (old ! current_peak);
             tolerance_dalton = tolerance_dalton_of E P current_mz
         in if pruned E precursor current_mz tolerance_dalton q then st
            else
              (case extend E P lb old current_peak current_mz q tolerance_dalton 1
                      [current_peak] (iso_peak_count st) of
                 (extensions, has_min_isopeaks, ipc) \<Rightarrow>
                   if has_min_isopeaks
                   then claim P lb old current_peak q extensions (st\<lparr>iso_peak_count := ipc\<rparr>)
                   else st\<lparr>iso_peak_count := ipc\<rparr>))
      else st)"

text \<open>
  One seed (lines 148 to 240 and 248 to 331):
  \<^verbatim>\<open>for (int q = max_charge; q >= min_charge; --q)\<close> runs over the charges from high to low.
\<close>

definition process_peak ::
  "collaborators \<Rightarrow> params \<Rightarrow> bool \<Rightarrow> Peak1D list \<Rightarrow> real option \<Rightarrow> discovery \<Rightarrow> nat \<Rightarrow>
   discovery" where
  "process_peak E P lb old precursor st current_peak =
     foldl (try_charge E P lb old precursor current_peak)
       (if add_up_intensity P
        then st\<lparr>mono_iso_peak_intensity :=
                  (mono_iso_peak_intensity st)[current_peak := getIntensity (old ! current_peak)]\<rparr>
        else st)
       (rev [min_charge P..max_charge P])"

definition init_discovery :: "nat \<Rightarrow> discovery" where
  "init_discovery n =
     \<lparr>mono_isotopic_peak = replicate n 0, features = replicate n (- 1),
      mono_iso_peak_intensity = replicate n 0, iso_peak_count = replicate n 1,
      feature_number = 0, accepted = []\<rparr>"

text \<open>Lines 142 to 241: the retained high intensity peaks are the first seeds.\<close>

definition seed_pass ::
  "collaborators \<Rightarrow> params \<Rightarrow> MSSpectrum \<Rightarrow> nat list \<Rightarrow> discovery" where
  "seed_pass E P spec high_intensity_peaks =
     foldl (process_peak E P True (peaks spec) (precursor_mass_of E spec))
       (init_discovery (length (peaks spec))) high_intensity_peaks"

text \<open>Lines 246 to 332: every peak, in the order of the spectrum.\<close>

definition exhaustive_pass ::
  "collaborators \<Rightarrow> params \<Rightarrow> MSSpectrum \<Rightarrow> discovery \<Rightarrow> discovery" where
  "exhaustive_pass E P spec st =
     foldl (process_peak E P False (peaks spec) (precursor_mass_of E spec)) st
       [0..<length (peaks spec)]"

definition discover ::
  "collaborators \<Rightarrow> params \<Rightarrow> MSSpectrum \<Rightarrow> nat list \<Rightarrow> discovery" where
  "discover E P spec high_intensity_peaks =
     exhaustive_pass E P spec (seed_pass E P spec high_intensity_peaks)"

section \<open>Rewriting and selection\<close>

definition push_back_ida :: "MSSpectrum \<Rightarrow> nat \<Rightarrow> int \<Rightarrow> MSSpectrum" where
  "push_back_ida spec k v =
     spec\<lparr>getIntegerDataArrays :=
            (getIntegerDataArrays spec)
              [k := (getIntegerDataArrays spec ! k)
                      \<lparr>ida_data := ida_data (getIntegerDataArrays spec ! k) @ [v]\<rparr>]\<rparr>"

definition setIntensity :: "MSSpectrum \<Rightarrow> nat \<Rightarrow> real \<Rightarrow> MSSpectrum" where
  "setIntensity spec i v = spec\<lparr>peaks := (peaks spec)[i := (peaks spec ! i)\<lparr>getIntensity := v\<rparr>]\<rparr>"

definition setMZ :: "MSSpectrum \<Rightarrow> nat \<Rightarrow> real \<Rightarrow> MSSpectrum" where
  "setMZ spec i v = spec\<lparr>peaks := (peaks spec)[i := (peaks spec ! i)\<lparr>getMZ := v\<rparr>]\<rparr>"

text \<open>
  One round of the loop of lines 337 to 370, on the spectrum and \<^verbatim>\<open>select_idx\<close>.
  \<^verbatim>\<open>(int)z\<close> keeps the low 32 bits of the \<^verbatim>\<open>size_t\<close>; in \<^verbatim>\<open>getMZ() * z - (z - 1) * ...\<close>
  the subtraction is on \<^verbatim>\<open>size_t\<close> and both operands are then converted to \<^verbatim>\<open>double\<close>.
\<close>

definition rewrite_step ::
  "collaborators \<Rightarrow> params \<Rightarrow> discovery \<Rightarrow> nat \<Rightarrow> nat \<Rightarrow> MSSpectrum \<times> nat list \<Rightarrow> nat \<Rightarrow>
   MSSpectrum \<times> nat list" where
  "rewrite_step E P st charge_index iso_peak_count_index acc i =
     (case acc of (spec, select_idx) \<Rightarrow>
       (let z = mono_isotopic_peak st ! i;
            spec1 = (if annotate_charge P
                     then push_back_ida spec charge_index (sint (ucast z :: 32 word))
                     else spec);
            spec2 = (if annotate_iso_peak_count P
                     then push_back_ida spec1 iso_peak_count_index
                            (sint (word_of_nat (iso_peak_count st ! i) :: 32 word))
                     else spec1);
            spec3 = (if add_up_intensity P
                     then setIntensity spec2 i (mono_iso_peak_intensity st ! i)
                     else spec2)
        in if \<not> keep_only_deisotoped P \<and> features st ! i < 0 then (spec3, select_idx @ [i])
           else if z = 0 then (spec3, select_idx)
           else ((if make_single_charged P
                  then setMZ spec3 i
                         (getMZ (peaks spec3 ! i) * real (unat z)
                          - real (unat (z - 1)) * PROTON_MASS_U E)
                  else spec3),
                 select_idx @ [i])))"

text \<open>Lines 372 to 383.\<close>

definition preserve_high_intensity :: "nat list \<Rightarrow> nat list \<Rightarrow> nat list" where
  "preserve_high_intensity high_intensity_peaks select_idx =
     foldl (\<lambda>sel peak_index. if peak_index \<in> set sel then sel else sel @ [peak_index])
       select_idx high_intensity_peaks"

text \<open>
  Lines 385 to 401, over the indices still to visit: the \<^verbatim>\<open>else\<close> branch leaves the loop.
  The peaks are those of the spectrum as rewritten by the loop before.
\<close>

definition preserve_low_mz_peaks_threshold :: real where
  "preserve_low_mz_peaks_threshold = 154.0"

fun preserve_low_mz :: "Peak1D list \<Rightarrow> nat list \<Rightarrow> nat list \<Rightarrow> nat list" where
  "preserve_low_mz ps [] select_idx = select_idx"
| "preserve_low_mz ps (i # is) select_idx =
     (if getMZ (ps ! i) < preserve_low_mz_peaks_threshold
      then preserve_low_mz ps is (if i \<in> set select_idx then select_idx else select_idx @ [i])
      else select_idx)"

text \<open>
  Modelled from the spec: \<^verbatim>\<open>MSSpectrum::select\<close> and \<^verbatim>\<open>MSSpectrum::sortByPosition\<close> are
  not under src/. The spec (4.1, step 9): the output is restricted to the selected index
  set, all auxiliary integer arrays kept in lock-step with the peak list, and re-sorted by
  m/z position. An integer array has one entry per peak (spec, 3). The sort is taken to
  be stable; no statement below depends on the order of peaks of equal m/z.
\<close>

definition select_ida :: "IntegerDataArray \<Rightarrow> nat list \<Rightarrow> IntegerDataArray" where
  "select_ida a indices = a\<lparr>ida_data := map (\<lambda>i. ida_data a ! i) indices\<rparr>"

text \<open>
  Modelled from the spec: \<^verbatim>\<open>MSSpectrum::select\<close>, not under src/; the peaks and every
  integer array at the given indices, in the order given (spec 4.1, step 9).
\<close>

definition select :: "MSSpectrum \<Rightarrow> nat list \<Rightarrow> MSSpectrum" where
  "select spec indices =
     spec\<lparr>peaks := map (\<lambda>i. peaks spec ! i) indices,
          getIntegerDataArrays := map (\<lambda>a. select_ida a indices) (getIntegerDataArrays spec)\<rparr>"

text \<open>
  Modelled from the spec: \<^verbatim>\<open>MSSpectrum::sortByPosition\<close>, not under src/; the spectrum
  re-sorted by m/z, the arrays in lock-step (spec 4.1, step 9).
\<close>

definition sortByPosition :: "MSSpectrum \<Rightarrow> MSSpectrum" where
  "sortByPosition spec =
     select spec (sort_key (\<lambda>i. getMZ (peaks spec ! i)) [0..<length (peaks spec)])"

text \<open>
  Modelled from the spec: \<^verbatim>\<open>MSSpectrum::isSorted\<close>, not under src/; the spectrum is
  sorted by m/z, peaks of equal m/z allowed (spec 3).
\<close>

definition isSorted :: "MSSpectrum \<Rightarrow> bool" where
  "isSorted spec = sorted (map getMZ (peaks spec))"

text \<open>Lines 79 to 93: one more integer data array, empty, with the given name.\<close>

definition reserve_ida :: "string \<Rightarrow> MSSpectrum \<Rightarrow> MSSpectrum" where
  "reserve_ida nm spec =
     spec\<lparr>getIntegerDataArrays := getIntegerDataArrays spec @ [\<lparr>getName = nm, ida_data = []\<rparr>]\<rparr>"

text \<open>\<^verbatim>\<open>select_idx\<close> at line 404, for the spectrum with its arrays reserved.\<close>

definition rewrite ::
  "collaborators \<Rightarrow> params \<Rightarrow> discovery \<Rightarrow> nat \<Rightarrow> nat \<Rightarrow> MSSpectrum \<Rightarrow> MSSpectrum \<times> nat list" where
  "rewrite E P st charge_index iso_peak_count_index spec =
     foldl (rewrite_step E P st charge_index iso_peak_count_index) (spec, [])
       [0..<length (peaks spec)]"

definition selection :: "nat list \<Rightarrow> MSSpectrum \<times> nat list \<Rightarrow> nat list" where
  "selection high_intensity_peaks r =
     preserve_low_mz (peaks (fst r)) [0..<length (peaks (fst r))]
       (preserve_high_intensity high_intensity_peaks (snd r))"

section \<open>The function\<close>

text \<open>
  The spectrum is passed by reference: the result is the exception thrown, if any, and
  the spectrum as the call leaves it.

  Modelled from the spec: the macro \<^verbatim>\<open>OPENMS_PRECONDITION\<close> of line 62 is not under src/.
  The spec (4.1, step 1): the spectrum is sorted by m/z, else the call fails with a
  precondition violation.
\<close>

definition deisotopeAndSingleCharge ::
  "collaborators \<Rightarrow> params \<Rightarrow> MSSpectrum \<Rightarrow> error option \<times> MSSpectrum" where
  "deisotopeAndSingleCharge E P spec =
     (if \<not> isSorted spec then (Some Precondition, spec)
      else if min_isopeaks P < 2 \<or> max_isopeaks P < 2 \<or> max_isopeaks P < min_isopeaks P
        then (Some IllegalArgument, spec)
      else
        (let spec1 = (if annotate_charge P then reserve_ida ''charge'' spec else spec);
             charge_index = (if annotate_charge P
                             then length (getIntegerDataArrays spec1) - 1 else 0);
             spec2 = (if annotate_iso_peak_count P
                      then reserve_ida ''iso_peak_count'' spec1 else spec1);
             iso_peak_count_index = (if annotate_iso_peak_count P
                                     then length (getIntegerDataArrays spec2) - 1 else 0)
         in if peaks spec2 = [] then (None, spec2)
            else
              (let high_intensity_peaks = filterPeakSpectrum E (peaks spec2);
                   st = discover E P spec2 high_intensity_peaks;
                   r = rewrite E P st charge_index iso_peak_count_index spec2
               in (None, sortByPosition (select (fst r) (selection high_intensity_peaks r))))))"

section \<open>The collaborators, as the spec describes them\<close>

text \<open>
  Modelled from the spec: \<^verbatim>\<open>MSSpectrum::findNearest\<close> is not under src/. The spec (2):
  given a sorted peak list and a target m/z with a tolerance window, the index of the
  closest peak within tolerance, or none found. Of two peaks equally close the first is
  taken.
\<close>

definition nearest_index :: "Peak1D list \<Rightarrow> real \<Rightarrow> nat" where
  "nearest_index ps x =
     foldl (\<lambda>best i. if \<bar>getMZ (ps ! i) - x\<bar> < \<bar>getMZ (ps ! best) - x\<bar> then i else best)
       0 [0..<length ps]"

text \<open>
  Modelled from the spec: \<^verbatim>\<open>MSSpectrum::findNearest\<close> with a tolerance, not under src/;
  the closest peak if it lies within the tolerance, else \<open>-1\<close> (spec 2).
\<close>

definition findNearest_spec :: "Peak1D list \<Rightarrow> real \<Rightarrow> real \<Rightarrow> int" where
  "findNearest_spec ps x tolerance =
     (if ps = [] then - 1
      else (let i = nearest_index ps x
            in if x - tolerance \<le> getMZ (ps ! i) \<and> getMZ (ps ! i) \<le> x + tolerance
               then int i else - 1))"

text \<open>
  Modelled from the spec: \<^verbatim>\<open>WindowMower::filterPeakSpectrum\<close> is not under src/. The
  spec (4.1, step 5): a jumping window of fixed width (4 m/z units) keeping the single
  most intense peak per window. The first window starts at the first peak, the next one
  at the first peak outside the window before it; of two peaks equally intense the first
  is kept.
\<close>

fun jump_windows :: "Peak1D list \<Rightarrow> real \<Rightarrow> nat list \<Rightarrow> nat list \<Rightarrow> nat list list" where
  "jump_windows ps window_start window [] = (if window = [] then [] else [window])"
| "jump_windows ps window_start window (i # is) =
     (if getMZ (ps ! i) - window_start < 4.0
      then jump_windows ps window_start (window @ [i]) is
      else window # jump_windows ps (getMZ (ps ! i)) [i] is)"

text \<open>
  Modelled from the spec: the single most intense peak of a window (spec 4.1, step 5).
\<close>

definition most_intense :: "Peak1D list \<Rightarrow> nat list \<Rightarrow> nat" where
  "most_intense ps window =
     foldl (\<lambda>best i. if getIntensity (ps ! best) < getIntensity (ps ! i) then i else best)
       (hd window) (tl window)"

text \<open>
  Modelled from the spec: \<^verbatim>\<open>WindowMower::filterPeakSpectrum\<close> with the parameters of
  lines 126 to 128, not under src/; the indices of the peaks it retains (spec 4.1,
  step 5).
\<close>

definition WindowMower_jump :: "Peak1D list \<Rightarrow> nat list" where
  "WindowMower_jump ps =
     (case ps of
        [] \<Rightarrow> []
      | p # _ \<Rightarrow> map (most_intense ps) (jump_windows ps (getMZ p) [] [0..<length ps]))"

text \<open>
  Modelled from the spec: \<^verbatim>\<open>OpenMS/CONCEPT/Constants.h\<close> and \<^verbatim>\<open>Math::ppmToMass\<close> are not
  under src/. The spec's scenarios place the first isotope of 100.0 at 101.003 for
  charge 1 and project 100.000 at charge 2 to 100.000 * 2 - 1.00728; the constants
  below are the mass difference of C13 and C12 and the proton mass to more digits. The
  spec (2): the converter turns a parts-per-million tolerance into an absolute one for a
  given m/z.
\<close>

definition spec_collaborators :: collaborators where
  "spec_collaborators =
     \<lparr>C13C12_MASSDIFF_U = 1.0033548378, PROTON_MASS = 1.007276466771,
      PROTON_MASS_U = 1.007276466771,
      ppmToMass = (\<lambda>ppm m. ppm / 1000000 * m),
      findNearest = findNearest_spec, filterPeakSpectrum = WindowMower_jump\<rparr>"

section \<open>Accepted runs\<close>

text \<open>
  A charge \<open>q\<close> is accepted for a seed when the precursor mass does not rule it out and
  the extension ends with \<^verbatim>\<open>has_min_isopeaks\<close> true; \<open>extension_of\<close> is the list
  \<^verbatim>\<open>extensions\<close> at that point. Neither depends on the array \<^verbatim>\<open>iso_peak_count\<close>
  (lemma \<open>extend_ipc_indep\<close>), which is empty here.
\<close>

definition accepts ::
  "collaborators \<Rightarrow> params \<Rightarrow> bool \<Rightarrow> Peak1D list \<Rightarrow> real option \<Rightarrow> nat \<Rightarrow> int \<Rightarrow> bool" where
  "accepts E P lb old precursor current_peak q =
     (\<not> pruned E precursor (getMZ (old ! current_peak))
          (tolerance_dalton_of E P (getMZ (old ! current_peak))) q \<and>
      fst (snd (extend E P lb old current_peak (getMZ (old ! current_peak)) q
                  (tolerance_dalton_of E P (getMZ (old ! current_peak))) 1 [current_peak] [])))"

definition extension_of ::
  "collaborators \<Rightarrow> params \<Rightarrow> bool \<Rightarrow> Peak1D list \<Rightarrow> nat \<Rightarrow> int \<Rightarrow> nat list" where
  "extension_of E P lb old current_peak q =
     fst (extend E P lb old current_peak (getMZ (old ! current_peak)) q
            (tolerance_dalton_of E P (getMZ (old ! current_peak))) 1 [current_peak] [])"

text \<open>
  What holds of every accepted run at every point of the discovery phase, and of the
  working arrays.
\<close>

definition run_inv ::
  "collaborators \<Rightarrow> params \<Rightarrow> Peak1D list \<Rightarrow> real option \<Rightarrow> discovery \<Rightarrow> run \<Rightarrow> bool" where
  "run_inv E P old precursor st r =
     (run_seed r < length old \<and> features st ! run_seed r \<noteq> - 1 \<and>
      min_charge P \<le> run_charge r \<and> run_charge r \<le> max_charge P \<and>
      accepts E P (run_seed_pass r) old precursor (run_seed r) (run_charge r) \<and>
      (\<forall>q'. run_charge r < q' \<and> q' \<le> max_charge P \<longrightarrow>
         \<not> accepts E P (run_seed_pass r) old precursor (run_seed r) q') \<and>
      run_extensions r = extension_of E P (run_seed_pass r) old (run_seed r) (run_charge r) \<and>
      mono_isotopic_peak st ! run_seed r = word_of_int (run_charge r) \<and>
      (annotate_iso_peak_count P \<longrightarrow>
         iso_peak_count st ! run_seed r = length (run_extensions r)))"

definition discovery_inv ::
  "collaborators \<Rightarrow> params \<Rightarrow> Peak1D list \<Rightarrow> real option \<Rightarrow> discovery \<Rightarrow> bool" where
  "discovery_inv E P old precursor st =
     (length (mono_isotopic_peak st) = length old \<and> length (features st) = length old \<and>
      length (mono_iso_peak_intensity st) = length old \<and>
      length (iso_peak_count st) = length old \<and> 0 \<le> feature_number st \<and>
      (\<forall>r \<in> set (accepted st). run_inv E P old precursor st r) \<and>
      distinct (map run_seed (accepted st)))"

text \<open>
  Which peaks carry a feature number: every peak of the spectrum that an accepted run
  has in \<^verbatim>\<open>extensions\<close>; and the seed of a run is in \<^verbatim>\<open>extensions\<close> of no run accepted
  before it.
\<close>

definition claimed_inv :: "Peak1D list \<Rightarrow> discovery \<Rightarrow> bool" where
  "claimed_inv old st =
     ((\<forall>r \<in> set (accepted st). \<forall>e \<in> set (run_extensions r).
         e < length old \<longrightarrow> features st ! e \<noteq> - 1) \<and>
      (\<forall>i j. i < j \<and> j < length (accepted st) \<longrightarrow>
         run_seed (accepted st ! j) \<notin> set (run_extensions (accepted st ! i))))"

text \<open>
  Lines 149 to 152 and 249 to 252 on their own, the first statement of a round of either
  loop over the seeds (lemma \<open>process_peak_reset\<close>).
\<close>

definition reset_intensity :: "params \<Rightarrow> Peak1D list \<Rightarrow> discovery \<Rightarrow> nat \<Rightarrow> discovery" where
  "reset_intensity P old st current_peak =
     (if add_up_intensity P
      then st\<lparr>mono_iso_peak_intensity :=
                (mono_iso_peak_intensity st)[current_peak := getIntensity (old ! current_peak)]\<rparr>
      else st)"

section \<open>Inputs of the scenarios\<close>

text \<open>
  The scenario of the spec (8): three peaks, charge 1 only, runs of 2 to 3 peaks, an
  absolute tolerance of 0.05 Da. The arguments the scenario leaves open are fixed here.
\<close>

definition scenario_params :: params where
  "scenario_params =
     \<lparr>fragment_tolerance = 0.05, fragment_unit_ppm = False, min_charge = 1, max_charge = 1,
      keep_only_deisotoped = False, min_isopeaks = 2, max_isopeaks = 3,
      make_single_charged = False, annotate_charge = True, annotate_iso_peak_count = True,
      use_decreasing_model = True, start_intensity_check = 0, add_up_intensity = False\<rparr>"

definition scenario_spectrum :: MSSpectrum where
  "scenario_spectrum =
     \<lparr>peaks = [\<lparr>getMZ = 100.0, getIntensity = 1000\<rparr>, \<lparr>getMZ = 100.50, getIntensity = 50\<rparr>,
               \<lparr>getMZ = 101.0, getIntensity = 900\<rparr>],
      getIntegerDataArrays = [], getPrecursors = []\<rparr>"

definition empty_spectrum :: MSSpectrum where
  "empty_spectrum = \<lparr>peaks = [], getIntegerDataArrays = [], getPrecursors = []\<rparr>"

text \<open>
  Three peaks half an isotope spacing apart, the middle one the most intense: the third
  is the first isotope of the second at charge 2 and of the first at charge 1.
\<close>

definition overlap_params :: params where
  "overlap_params =
     \<lparr>fragment_tolerance = 0.01, fragment_unit_ppm = False, min_charge = 1, max_charge = 2,
      keep_only_deisotoped = False, min_isopeaks = 2, max_isopeaks = 2,
      make_single_charged = False, annotate_charge = True, annotate_iso_peak_count = True,
      use_decreasing_model = True, start_intensity_check = 0, add_up_intensity = False\<rparr>"

definition overlap_spectrum :: MSSpectrum where
  "overlap_spectrum =
     \<lparr>peaks = [\<lparr>getMZ = 200.0, getIntensity = 1000\<rparr>, \<lparr>getMZ = 200.5017, getIntensity = 2000\<rparr>,
               \<lparr>getMZ = 201.0034, getIntensity = 500\<rparr>],
      getIntegerDataArrays = [], getPrecursors = []\<rparr>"

text \<open>
  A peak with its first isotope at charge 1 and a third, unrelated peak, all within one
  window of the filter; intensities are added up.
\<close>

definition sum_params :: params where
  "sum_params =
     \<lparr>fragment_tolerance = 0.01, fragment_unit_ppm = False, min_charge = 1, max_charge = 1,
      keep_only_deisotoped = False, min_isopeaks = 2, max_isopeaks = 3,
      make_single_charged = False, annotate_charge = True, annotate_iso_peak_count = True,
      use_decreasing_model = True, start_intensity_check = 0, add_up_intensity = True\<rparr>"

definition sum_spectrum :: MSSpectrum where
  "sum_spectrum =
     \<lparr>peaks = [\<lparr>getMZ = 200.0, getIntensity = 1000\<rparr>, \<lparr>getMZ = 201.0034, getIntensity = 500\<rparr>,
               \<lparr>getMZ = 203.5, getIntensity = 10\<rparr>],
      getIntegerDataArrays = [], getPrecursors = []\<rparr>"

text \<open>
  The second scenario of the spec (8): a triplet at the spacing of charge 2, charges 1 to
  2, a tolerance of 0.01 Da, \<^verbatim>\<open>make_single_charged\<close> set.
\<close>

definition triplet_params :: params where
  "triplet_params =
     \<lparr>fragment_tolerance = 0.01, fragment_unit_ppm = False, min_charge = 1, max_charge = 2,
      keep_only_deisotoped = False, min_isopeaks = 2, max_isopeaks = 3,
      make_single_charged = True, annotate_charge = True, annotate_iso_peak_count = True,
      use_decreasing_model = True, start_intensity_check = 0, add_up_intensity = False\<rparr>"

definition triplet_spectrum :: MSSpectrum where
  "triplet_spectrum =
     \<lparr>peaks = [\<lparr>getMZ = 100.000, getIntensity = 1000\<rparr>, \<lparr>getMZ = 100.5014, getIntensity = 500\<rparr>,
               \<lparr>getMZ = 101.0027, getIntensity = 250\<rparr>],
      getIntegerDataArrays = [], getPrecursors = []\<rparr>"

text \<open>One peak, a tolerance of 0.5 Da and charges 1 to 3.\<close>

definition wide_params :: params where
  "wide_params =
     \<lparr>fragment_tolerance = 0.5, fragment_unit_ppm = False, min_charge = 1, max_charge = 3,
      keep_only_deisotoped = False, min_isopeaks = 2, max_isopeaks = 3,
      make_single_charged = False, annotate_charge = True, annotate_iso_peak_count = True,
      use_decreasing_model = True, start_intensity_check = 0, add_up_intensity = False\<rparr>"

definition single_peak_spectrum :: MSSpectrum where
  "single_peak_spectrum =
     \<lparr>peaks = [\<lparr>getMZ = 100.0, getIntensity = 10\<rparr>],
      getIntegerDataArrays = [], getPrecursors = []\<rparr>"


section \<open>The extension loop\<close>

lemma extend_rec:
  "i < max_isopeaks P \<Longrightarrow> \<not> breaks P lb old i exts (candidate E old cmz q tol i) \<Longrightarrow>
   extend E P lb old cur cmz q tol i exts ipc =
     extend E P lb old cur cmz q tol (i + 1) (exts @ [nat (candidate E old cmz q tol i)])
       (if annotate_iso_peak_count P then ipc[cur := i + 1] else ipc)"
  by (subst extend.simps) simp

lemma extend_stop:
  "\<not> (i < max_isopeaks P \<and> \<not> breaks P lb old i exts (candidate E old cmz q tol i)) \<Longrightarrow>
   extend E P lb old cur cmz q tol i exts ipc =
     (exts, (i < max_isopeaks P \<longrightarrow> min_isopeaks P \<le> i), ipc)"
  by (subst extend.simps) auto

lemma extend_prefix:
  "\<exists>more. fst (extend E P lb old cur cmz q tol i exts ipc) = exts @ more"
proof (induction E P lb old cur cmz q tol i exts ipc rule: extend.induct)
  case (1 E P lb old cur cmz q tol i exts ipc)
  show ?case
  proof (cases "i < max_isopeaks P \<and> \<not> breaks P lb old i exts (candidate E old cmz q tol i)")
    case True
    then show ?thesis using "1.IH" by (auto simp: extend_rec)
  next
    case False
    then show ?thesis by (simp add: extend_stop)
  qed
qed

lemma extend_length:
  "length exts = i \<Longrightarrow> i \<le> max_isopeaks P \<Longrightarrow> min_isopeaks P \<le> max_isopeaks P \<Longrightarrow>
   length (fst (extend E P lb old cur cmz q tol i exts ipc)) \<le> max_isopeaks P \<and>
   i \<le> length (fst (extend E P lb old cur cmz q tol i exts ipc)) \<and>
   (fst (snd (extend E P lb old cur cmz q tol i exts ipc)) \<longrightarrow>
      min_isopeaks P \<le> length (fst (extend E P lb old cur cmz q tol i exts ipc)))"
proof (induction E P lb old cur cmz q tol i exts ipc rule: extend.induct)
  case (1 E P lb old cur cmz q tol i exts ipc)
  show ?case
  proof (cases "i < max_isopeaks P \<and> \<not> breaks P lb old i exts (candidate E old cmz q tol i)")
    case True
    then show ?thesis using "1.IH" "1.prems" by (simp add: extend_rec)
  next
    case False
    then show ?thesis using "1.prems" by (auto simp: extend_stop)
  qed
qed

lemma extend_ipc_frame:
  "length (snd (snd (extend E P lb old cur cmz q tol i exts ipc))) = length ipc \<and>
   (\<forall>j. j \<noteq> cur \<longrightarrow> snd (snd (extend E P lb old cur cmz q tol i exts ipc)) ! j = ipc ! j)"
proof (induction E P lb old cur cmz q tol i exts ipc rule: extend.induct)
  case (1 E P lb old cur cmz q tol i exts ipc)
  show ?case
  proof (cases "i < max_isopeaks P \<and> \<not> breaks P lb old i exts (candidate E old cmz q tol i)")
    case True
    then show ?thesis using "1.IH" by (simp add: extend_rec)
  next
    case False
    then show ?thesis by (simp add: extend_stop)
  qed
qed

lemma extend_ipc_indep:
  "fst (extend E P lb old cur cmz q tol i exts ipc) =
     fst (extend E P lb old cur cmz q tol i exts ipc') \<and>
   fst (snd (extend E P lb old cur cmz q tol i exts ipc)) =
     fst (snd (extend E P lb old cur cmz q tol i exts ipc'))"
proof (induction E P lb old cur cmz q tol i exts ipc arbitrary: ipc' rule: extend.induct)
  case (1 E P lb old cur cmz q tol i exts ipc)
  show ?case
  proof (cases "i < max_isopeaks P \<and> \<not> breaks P lb old i exts (candidate E old cmz q tol i)")
    case True
    then show ?thesis using "1.IH" by (simp add: extend_rec)
  next
    case False
    then show ?thesis by (simp add: extend_stop)
  qed
qed

lemma extend_ipc_seed:
  "length exts = i \<Longrightarrow> i \<le> max_isopeaks P \<Longrightarrow> min_isopeaks P \<le> max_isopeaks P \<Longrightarrow>
   annotate_iso_peak_count P \<Longrightarrow> cur < length ipc \<Longrightarrow>
   snd (snd (extend E P lb old cur cmz q tol i exts ipc)) ! cur =
     (if length (fst (extend E P lb old cur cmz q tol i exts ipc)) = i then ipc ! cur
      else length (fst (extend E P lb old cur cmz q tol i exts ipc)))"
proof (induction E P lb old cur cmz q tol i exts ipc rule: extend.induct)
  case (1 E P lb old cur cmz q tol i exts ipc)
  let ?c = "candidate E old cmz q tol i"
  show ?case
  proof (cases "i < max_isopeaks P \<and> \<not> breaks P lb old i exts ?c")
    case False
    then show ?thesis using "1.prems" by (simp add: extend_stop)
  next
    case True
    let ?r = "extend E P lb old cur cmz q tol (i + 1) (exts @ [nat ?c]) (ipc[cur := i + 1])"
    have rec: "extend E P lb old cur cmz q tol i exts ipc = ?r"
      using True "1.prems" by (simp add: extend_rec)
    have len: "i + 1 \<le> length (fst ?r)"
      using extend_length[of "exts @ [nat ?c]" "i + 1" P E lb old cur cmz q tol "ipc[cur := i + 1]"]
        "1.prems" True by simp
    have "snd (snd ?r) ! cur =
            (if length (fst ?r) = i + 1 then (ipc[cur := i + 1]) ! cur else length (fst ?r))"
      using "1.IH" True "1.prems" by simp
    then show ?thesis using rec len "1.prems" by auto
  qed
qed

lemma foldl_update_length: "length (foldl (\<lambda>f e. f[e := v]) f es) = length f"
  by (induction es arbitrary: f) auto

lemma foldl_update_nth:
  "j < length f \<Longrightarrow>
   foldl (\<lambda>f e. f[e := v]) f es ! j = (if j \<in> set es then v else f ! j)"
  by (induction es arbitrary: f) (auto simp: nth_list_update)

lemma foldl_add_length:
  "length (foldl (\<lambda>m e. m[c := m ! c + g e]) m es) = length m"
  by (induction es arbitrary: m) auto

section \<open>The invariant of the discovery phase\<close>

lemma claim_fields:
  "mono_isotopic_peak (claim P lb old cur q exts st) = (mono_isotopic_peak st)[cur := word_of_int q]"
  "features (claim P lb old cur q exts st) = foldl (\<lambda>f e. f[e := feature_number st]) (features st) exts"
  "iso_peak_count (claim P lb old cur q exts st) = iso_peak_count st"
  "feature_number (claim P lb old cur q exts st) = feature_number st + 1"
  "accepted (claim P lb old cur q exts st) =
     accepted st @ [\<lparr>run_seed = cur, run_charge = q, run_extensions = exts, run_seed_pass = lb\<rparr>]"
  "length (mono_iso_peak_intensity (claim P lb old cur q exts st)) = length (mono_iso_peak_intensity st)"
  by (simp_all add: claim_def foldl_add_length)

lemma run_inv_frame:
  assumes "run_inv E P old precursor st r"
    and "features st' ! run_seed r \<noteq> - 1"
    and "mono_isotopic_peak st' ! run_seed r = mono_isotopic_peak st ! run_seed r"
    and "iso_peak_count st' ! run_seed r = iso_peak_count st ! run_seed r"
  shows "run_inv E P old precursor st' r"
  using assms unfolding run_inv_def by simp

lemma below_charge:
  fixes q :: int
  assumes "\<not> A q" and "\<And>q'. q < q' \<Longrightarrow> q' \<le> m \<Longrightarrow> \<not> A q'"
    and "q - 1 < q'" and "q' \<le> m"
  shows "\<not> A q'"
  using assms by (cases "q' = q") auto

lemma try_charge_inv:
  assumes inv: "discovery_inv E P old precursor st"
    and cur: "cur < length old"
    and q: "min_charge P \<le> q" "q \<le> max_charge P"
    and iso: "2 \<le> min_isopeaks P" "min_isopeaks P \<le> max_isopeaks P"
    and above: "features st ! cur = - 1 \<Longrightarrow>
                \<forall>q'. q < q' \<and> q' \<le> max_charge P \<longrightarrow> \<not> accepts E P lb old precursor cur q'"
  shows "discovery_inv E P old precursor (try_charge E P lb old precursor cur st q) \<and>
         (features (try_charge E P lb old precursor cur st q) ! cur = - 1 \<longrightarrow>
            (\<forall>q'. q - 1 < q' \<and> q' \<le> max_charge P \<longrightarrow> \<not> accepts E P lb old precursor cur q'))"
proof (cases "features st ! cur = - 1")
  case False
  then show ?thesis using inv by (simp add: try_charge_def)
next
  case free: True
  define cmz where "cmz = getMZ (old ! cur)"
  define tol where "tol = tolerance_dalton_of E P cmz"
  have lens: "length (mono_isotopic_peak st) = length old" "length (features st) = length old"
    "length (mono_iso_peak_intensity st) = length old" "length (iso_peak_count st) = length old"
    "0 \<le> feature_number st"
    using inv by (simp_all add: discovery_inv_def)
  have runs: "\<And>r. r \<in> set (accepted st) \<Longrightarrow> run_inv E P old precursor st r"
    using inv by (simp add: discovery_inv_def)
  have dist: "distinct (map run_seed (accepted st))"
    using inv by (simp add: discovery_inv_def)
  have seed_ne: "\<And>r. r \<in> set (accepted st) \<Longrightarrow> run_seed r \<noteq> cur"
    using runs free unfolding run_inv_def by auto
  have upper: "\<And>q'. q < q' \<Longrightarrow> q' \<le> max_charge P \<Longrightarrow> \<not> accepts E P lb old precursor cur q'"
    using above free by blast
  show ?thesis
  proof (cases "pruned E precursor cmz tol q")
    case True
    then have same: "try_charge E P lb old precursor cur st q = st"
      using free by (simp add: try_charge_def cmz_def tol_def)
    have "\<not> accepts E P lb old precursor cur q"
      using True by (simp add: accepts_def cmz_def tol_def)
    then have "\<And>q'. q - 1 < q' \<Longrightarrow> q' \<le> max_charge P \<Longrightarrow> \<not> accepts E P lb old precursor cur q'"
      using upper by (rule below_charge)
    then show ?thesis using same inv by simp
  next
    case notpruned: False
    obtain exts hm ipc' where ex:
      "extend E P lb old cur cmz q tol 1 [cur] (iso_peak_count st) = (exts, hm, ipc')"
      by (metis prod_cases3)
    have hm: "hm = accepts E P lb old precursor cur q"
      using notpruned ex extend_ipc_indep[of E P lb old cur cmz q tol 1 "[cur]" "iso_peak_count st" "[]"]
      by (simp add: accepts_def cmz_def tol_def)
    have exts: "exts = extension_of E P lb old cur q"
      using ex extend_ipc_indep[of E P lb old cur cmz q tol 1 "[cur]" "iso_peak_count st" "[]"]
      by (simp add: extension_of_def cmz_def tol_def)
    have frame: "length ipc' = length old" "\<And>j. j \<noteq> cur \<Longrightarrow> ipc' ! j = iso_peak_count st ! j"
      using ex extend_ipc_frame[of E P lb old cur cmz q tol 1 "[cur]" "iso_peak_count st"] lens
      by simp_all
    define st1 where "st1 = st\<lparr>iso_peak_count := ipc'\<rparr>"
    have runs1: "\<And>r. r \<in> set (accepted st) \<Longrightarrow> run_inv E P old precursor st1 r"
    proof -
      fix r assume r: "r \<in> set (accepted st)"
      show "run_inv E P old precursor st1 r"
        using runs[OF r] seed_ne[OF r] frame(2)
        by (intro run_inv_frame[of E P old precursor st r st1]) (simp_all add: st1_def run_inv_def)
    qed
    have inv1: "discovery_inv E P old precursor st1"
      using lens frame(1) runs1 dist by (simp add: discovery_inv_def st1_def)
    show ?thesis
    proof (cases hm)
      case False
      then have res: "try_charge E P lb old precursor cur st q = st1"
        using free notpruned ex by (simp add: try_charge_def cmz_def tol_def st1_def)
      have "\<not> accepts E P lb old precursor cur q" using False hm by simp
      then have up: "\<And>q'. q - 1 < q' \<Longrightarrow> q' \<le> max_charge P \<Longrightarrow> \<not> accepts E P lb old precursor cur q'"
        using upper by (rule below_charge)
      show ?thesis using res inv1 up by simp
    next
      case True
      define st2 where "st2 = claim P lb old cur q exts st1"
      have res: "try_charge E P lb old precursor cur st q = st2"
        using free notpruned ex True by (simp add: try_charge_def cmz_def tol_def st1_def st2_def)
      have st1f: "features st1 = features st" "mono_isotopic_peak st1 = mono_isotopic_peak st"
        "iso_peak_count st1 = ipc'" "feature_number st1 = feature_number st"
        "accepted st1 = accepted st" "mono_iso_peak_intensity st1 = mono_iso_peak_intensity st"
        by (simp_all add: st1_def)
      obtain more where more: "exts = [cur] @ more"
        using extend_prefix[of E P lb old cur cmz q tol 1 "[cur]" "iso_peak_count st"] ex by auto
      have elen: "length exts \<le> max_isopeaks P" "min_isopeaks P \<le> length exts"
        using extend_length[of "[cur]" 1 P E lb old cur cmz q tol "iso_peak_count st"] ex iso True
        by simp_all
      have fcur: "features st2 ! cur = feature_number st"
        using more cur lens by (simp add: st2_def claim_fields st1f foldl_update_nth)
      have fother: "\<And>j. j < length old \<Longrightarrow> features st ! j \<noteq> - 1 \<Longrightarrow> features st2 ! j \<noteq> - 1"
        using lens by (simp add: st2_def claim_fields st1f foldl_update_nth)
      have ipc_cur: "annotate_iso_peak_count P \<Longrightarrow> ipc' ! cur = length exts"
        using extend_ipc_seed[of "[cur]" 1 P cur "iso_peak_count st" E lb old cmz q tol] ex iso
          elen cur lens by simp
      have old_runs: "\<And>r. r \<in> set (accepted st) \<Longrightarrow> run_inv E P old precursor st2 r"
      proof -
        fix r assume r: "r \<in> set (accepted st)"
        have a: "run_inv E P old precursor st1 r" by (rule runs1[OF r])
        have b: "run_seed r < length old" "features st ! run_seed r \<noteq> - 1"
          using runs[OF r] by (simp_all add: run_inv_def)
        show "run_inv E P old precursor st2 r"
          using a seed_ne[OF r] fother[OF b]
          by (intro run_inv_frame[of E P old precursor st1 r st2])
             (simp_all add: st2_def claim_fields)
      qed
      have new_run: "run_inv E P old precursor st2
          \<lparr>run_seed = cur, run_charge = q, run_extensions = exts, run_seed_pass = lb\<rparr>"
        unfolding run_inv_def
        using cur fcur lens q True hm upper exts ipc_cur
        by (simp add: st2_def claim_fields st1f)
      have inv2: "discovery_inv E P old precursor st2"
        unfolding discovery_inv_def
        using lens frame(1) old_runs new_run dist seed_ne
        by (auto simp: st2_def claim_fields st1f foldl_update_length)
      have "features st2 ! cur \<noteq> - 1" using fcur lens by simp
      then show ?thesis using res inv2 by simp
    qed
  qed
qed

lemma rev_upto_rec: "lo \<le> hi \<Longrightarrow> rev [lo..hi] = hi # rev [lo..hi - 1]"
  by (simp add: upto_rec2)

lemma charge_loop_inv:
  assumes cur: "cur < length old"
    and iso: "2 \<le> min_isopeaks P" "min_isopeaks P \<le> max_isopeaks P"
  shows "discovery_inv E P old precursor st \<Longrightarrow> hi \<le> max_charge P \<Longrightarrow>
     (features st ! cur = - 1 \<Longrightarrow>
        \<forall>q'. hi < q' \<and> q' \<le> max_charge P \<longrightarrow> \<not> accepts E P lb old precursor cur q') \<Longrightarrow>
     discovery_inv E P old precursor
       (foldl (try_charge E P lb old precursor cur) st (rev [min_charge P..hi]))"
proof (induction "nat (hi - min_charge P + 1)" arbitrary: hi st)
  case 0
  then have "hi < min_charge P" by simp
  then show ?case using "0.prems" by simp
next
  case (Suc n)
  then have le: "min_charge P \<le> hi" by simp
  let ?st = "try_charge E P lb old precursor cur st hi"
  have step: "discovery_inv E P old precursor ?st \<and>
         (features ?st ! cur = - 1 \<longrightarrow>
            (\<forall>q'. hi - 1 < q' \<and> q' \<le> max_charge P \<longrightarrow> \<not> accepts E P lb old precursor cur q'))"
    using Suc.prems le cur iso
    by (intro try_charge_inv) simp_all
  have n: "n = nat (hi - 1 - min_charge P + 1)" using Suc.hyps(2) by simp
  have "discovery_inv E P old precursor
          (foldl (try_charge E P lb old precursor cur) ?st (rev [min_charge P..hi - 1]))"
    using step Suc.prems(2) by (intro Suc.hyps(1)[OF n]) simp_all
  then show ?case using le by (simp add: rev_upto_rec)
qed

lemma discovery_inv_intensity:
  "discovery_inv E P old precursor st \<Longrightarrow> length m = length old \<Longrightarrow>
   discovery_inv E P old precursor (st\<lparr>mono_iso_peak_intensity := m\<rparr>)"
  by (simp add: discovery_inv_def run_inv_def)

lemma process_peak_inv:
  assumes "discovery_inv E P old precursor st" "cur < length old"
    "2 \<le> min_isopeaks P" "min_isopeaks P \<le> max_isopeaks P"
  shows "discovery_inv E P old precursor (process_peak E P lb old precursor st cur)"
proof -
  have len: "length (mono_iso_peak_intensity st) = length old"
    using assms(1) by (simp add: discovery_inv_def)
  have "discovery_inv E P old precursor
          (if add_up_intensity P
           then st\<lparr>mono_iso_peak_intensity :=
                  (mono_iso_peak_intensity st)[cur := getIntensity (old ! cur)]\<rparr>
           else st)"
    using assms(1) len by (simp add: discovery_inv_intensity)
  then show ?thesis
    unfolding process_peak_def using assms(2-4)
    by (intro charge_loop_inv) (simp_all add: not_less[symmetric] del: not_less)
qed

lemma process_peaks_inv:
  assumes "2 \<le> min_isopeaks P" "min_isopeaks P \<le> max_isopeaks P"
  shows "discovery_inv E P old precursor st \<Longrightarrow> set xs \<subseteq> {..<length old} \<Longrightarrow>
     discovery_inv E P old precursor (foldl (process_peak E P lb old precursor) st xs)"
proof (induction xs arbitrary: st)
  case Nil
  then show ?case by simp
next
  case (Cons x xs)
  then show ?case using assms by (simp add: process_peak_inv)
qed

lemma init_discovery_inv: "discovery_inv E P old precursor (init_discovery (length old))"
  by (simp add: discovery_inv_def init_discovery_def)

lemma discover_inv:
  assumes "2 \<le> min_isopeaks P" "min_isopeaks P \<le> max_isopeaks P"
    and "set high_intensity_peaks \<subseteq> {..<length (peaks spec)}"
  shows "discovery_inv E P (peaks spec) (precursor_mass_of E spec)
           (discover E P spec high_intensity_peaks)"
  unfolding discover_def exhaustive_pass_def seed_pass_def
  using assms by (intro process_peaks_inv init_discovery_inv) auto

section \<open>The selected indices\<close>

lemma rewrite_step_peaks:
  "length (peaks (fst (rewrite_step E P st ci ii (sp, sel) i))) = length (peaks sp)"
  by (simp add: rewrite_step_def Let_def push_back_ida_def setIntensity_def setMZ_def)

lemma rewrite_step_select_idx:
  "snd (rewrite_step E P st ci ii (sp, sel) i) = sel \<or>
   snd (rewrite_step E P st ci ii (sp, sel) i) = sel @ [i]"
  by (simp add: rewrite_step_def Let_def)

lemma rewrite_upto:
  "length (peaks (fst (foldl (rewrite_step E P st ci ii) (sp, []) [0..<k]))) = length (peaks sp) \<and>
   distinct (snd (foldl (rewrite_step E P st ci ii) (sp, []) [0..<k])) \<and>
   set (snd (foldl (rewrite_step E P st ci ii) (sp, []) [0..<k])) \<subseteq> {..<k}"
proof (induction k)
  case 0
  show ?case by simp
next
  case (Suc k)
  obtain sp' sel where r: "foldl (rewrite_step E P st ci ii) (sp, []) [0..<k] = (sp', sel)"
    by (cases "foldl (rewrite_step E P st ci ii) (sp, []) [0..<k]")
  have ih: "length (peaks sp') = length (peaks sp)" "distinct sel" "set sel \<subseteq> {..<k}"
    using Suc.IH r by simp_all
  have k: "k \<notin> set sel" using ih(3) by auto
  show ?case
    using rewrite_step_peaks[of E P st ci ii sp' sel k]
      rewrite_step_select_idx[of E P st ci ii sp' sel k] ih k r
    by (auto simp: less_Suc_eq)
qed

lemma rewrite_select_idx:
  "length (peaks (fst (rewrite E P st ci ii sp))) = length (peaks sp) \<and>
   distinct (snd (rewrite E P st ci ii sp)) \<and>
   set (snd (rewrite E P st ci ii sp)) \<subseteq> {..<length (peaks sp)}"
  unfolding rewrite_def by (rule rewrite_upto)

lemma preserve_high_intensity_distinct:
  "distinct sel \<Longrightarrow>
   distinct (preserve_high_intensity hi sel) \<and>
   set (preserve_high_intensity hi sel) \<subseteq> set sel \<union> set hi"
  unfolding preserve_high_intensity_def
proof (induction hi arbitrary: sel)
  case Nil
  then show ?case by simp
next
  case (Cons a hi)
  let ?sel = "if a \<in> set sel then sel else sel @ [a]"
  have "distinct ?sel" using Cons.prems by simp
  from Cons.IH[OF this] show ?case by (auto split: if_splits)
qed

lemma preserve_low_mz_distinct:
  "distinct sel \<Longrightarrow>
   distinct (preserve_low_mz ps is sel) \<and> set (preserve_low_mz ps is sel) \<subseteq> set sel \<union> set is"
proof (induction "is" arbitrary: sel)
  case Nil
  then show ?case by simp
next
  case (Cons a "is")
  let ?sel = "if a \<in> set sel then sel else sel @ [a]"
  have "distinct ?sel" using Cons.prems by simp
  from Cons.IH[OF this] Cons.prems show ?case by (auto split: if_splits)
qed

lemma selection_distinct:
  assumes "set hi \<subseteq> {..<length (peaks sp)}"
  shows "distinct (selection hi (rewrite E P st ci ii sp)) \<and>
         set (selection hi (rewrite E P st ci ii sp)) \<subseteq> {..<length (peaks sp)}"
proof -
  let ?r = "rewrite E P st ci ii sp"
  note r = rewrite_select_idx[of E P st ci ii sp]
  have h: "distinct (preserve_high_intensity hi (snd ?r))"
    "set (preserve_high_intensity hi (snd ?r)) \<subseteq> {..<length (peaks sp)}"
    using preserve_high_intensity_distinct[of "snd ?r" hi] r assms by auto
  show ?thesis
    unfolding selection_def
    using preserve_low_mz_distinct[OF h(1), of "peaks (fst ?r)" "[0..<length (peaks (fst ?r))]"]
      h(2) r by auto
qed

lemma distinct_below_length:
  "distinct xs \<Longrightarrow> set xs \<subseteq> {..<n} \<Longrightarrow> length xs \<le> (n::nat)"
  using card_mono[of "{..<n}" "set xs"] by (simp add: distinct_card)

lemma select_peaks_length: "length (peaks (select sp indices)) = length indices"
  by (simp add: select_def)

lemma sortByPosition_peaks_length: "length (peaks (sortByPosition sp)) = length (peaks sp)"
  by (simp add: sortByPosition_def select_def)

lemma reserve_ida_peaks: "peaks (reserve_ida nm sp) = peaks sp"
  by (simp add: reserve_ida_def)

lemma accepted_run_length:
  assumes "accepts E P lb old precursor cur q" and "min_isopeaks P \<le> max_isopeaks P"
    and "1 \<le> max_isopeaks P"
  shows "min_isopeaks P \<le> length (extension_of E P lb old cur q) \<and>
         length (extension_of E P lb old cur q) \<le> max_isopeaks P"
  using assms
    extend_length[of "[cur]" 1 P E lb old cur "getMZ (old ! cur)" q
      "tolerance_dalton_of E P (getMZ (old ! cur))" "[]"]
  by (simp add: accepts_def extension_of_def)

section \<open>One seed, and the peaks that carry a feature number\<close>

lemma try_charge_claimed_id:
  "features st ! cur \<noteq> - 1 \<Longrightarrow> try_charge E P lb old precursor cur st q = st"
  by (simp add: try_charge_def)

lemma try_charge_rejected:
  assumes "features st ! cur = - 1" and "\<not> accepts E P lb old precursor cur q"
  shows "\<exists>ipc. try_charge E P lb old precursor cur st q = st\<lparr>iso_peak_count := ipc\<rparr>"
proof -
  let ?cmz = "getMZ (old ! cur)"
  let ?tol = "tolerance_dalton_of E P ?cmz"
  show ?thesis
  proof (cases "pruned E precursor ?cmz ?tol q")
    case True
    then have "try_charge E P lb old precursor cur st q = st\<lparr>iso_peak_count := iso_peak_count st\<rparr>"
      using assms(1) by (simp add: try_charge_def)
    then show ?thesis by blast
  next
    case False
    obtain exts hm ipc' where ex:
      "extend E P lb old cur ?cmz q ?tol 1 [cur] (iso_peak_count st) = (exts, hm, ipc')"
      by (metis prod_cases3)
    have "\<not> hm"
      using False ex assms(2)
        extend_ipc_indep[of E P lb old cur ?cmz q ?tol 1 "[cur]" "iso_peak_count st" "[]"]
      by (simp add: accepts_def)
    then have "try_charge E P lb old precursor cur st q = st\<lparr>iso_peak_count := ipc'\<rparr>"
      using assms(1) False ex by (simp add: try_charge_def)
    then show ?thesis by blast
  qed
qed

lemma try_charge_accepted:
  assumes "features st ! cur = - 1" and "accepts E P lb old precursor cur q"
  shows "\<exists>ipc. try_charge E P lb old precursor cur st q =
           claim P lb old cur q (extension_of E P lb old cur q) (st\<lparr>iso_peak_count := ipc\<rparr>)"
proof -
  let ?cmz = "getMZ (old ! cur)"
  let ?tol = "tolerance_dalton_of E P ?cmz"
  obtain exts hm ipc' where ex:
    "extend E P lb old cur ?cmz q ?tol 1 [cur] (iso_peak_count st) = (exts, hm, ipc')"
    by (metis prod_cases3)
  have np: "\<not> pruned E precursor ?cmz ?tol q" using assms(2) by (simp add: accepts_def)
  have "hm" "exts = extension_of E P lb old cur q"
    using ex assms(2)
      extend_ipc_indep[of E P lb old cur ?cmz q ?tol 1 "[cur]" "iso_peak_count st" "[]"]
    by (simp_all add: accepts_def extension_of_def)
  then have "try_charge E P lb old precursor cur st q =
      claim P lb old cur q (extension_of E P lb old cur q) (st\<lparr>iso_peak_count := ipc'\<rparr>)"
    using assms(1) np ex by (simp add: try_charge_def)
  then show ?thesis by blast
qed

lemma extension_of_seed: "cur \<in> set (extension_of E P lb old cur q)"
  using extend_prefix[of E P lb old cur "getMZ (old ! cur)" q
      "tolerance_dalton_of E P (getMZ (old ! cur))" 1 "[cur]" "[]"]
  by (auto simp: extension_of_def)

lemma claim_features_seed:
  assumes "cur < length (features st)" and "cur \<in> set exts"
  shows "features (claim P lb old cur q exts st) ! cur = feature_number st"
  using assms by (simp add: claim_fields foldl_update_nth)

lemma charges_claimed_id:
  "features st ! cur \<noteq> - 1 \<Longrightarrow> foldl (try_charge E P lb old precursor cur) st qs = st"
  by (induction qs) (simp_all add: try_charge_claimed_id)

text \<open>The charges tried while the seed has no feature number leave all but
  \<^verbatim>\<open>iso_peak_count\<close> as it was.\<close>

lemma charges_rejected:
  "features st ! cur = - 1 \<Longrightarrow> \<forall>q \<in> set qs. \<not> accepts E P lb old precursor cur q \<Longrightarrow>
   \<exists>ipc. foldl (try_charge E P lb old precursor cur) st qs = st\<lparr>iso_peak_count := ipc\<rparr>"
proof (induction qs arbitrary: st)
  case Nil
  have "st = st\<lparr>iso_peak_count := iso_peak_count st\<rparr>" by simp
  then show ?case by (metis foldl_Nil)
next
  case (Cons q qs)
  obtain ipc where s: "try_charge E P lb old precursor cur st q = st\<lparr>iso_peak_count := ipc\<rparr>"
    using try_charge_rejected[OF Cons.prems(1), of E P lb old precursor q] Cons.prems(2) by auto
  have "features (st\<lparr>iso_peak_count := ipc\<rparr>) ! cur = - 1" using Cons.prems(1) by simp
  from Cons.IH[OF this] Cons.prems(2) obtain ipc' where
    "foldl (try_charge E P lb old precursor cur) (st\<lparr>iso_peak_count := ipc\<rparr>) qs =
       st\<lparr>iso_peak_count := ipc, iso_peak_count := ipc'\<rparr>" by auto
  then show ?case using s by auto
qed

text \<open>The first accepted charge of the list is claimed, and the charges after it find
  the seed with a feature number.\<close>

lemma charges_first_accepted:
  assumes "features st ! cur = - 1" and "cur < length (features st)"
    and "feature_number st \<noteq> - 1"
    and "\<forall>q' \<in> set before. \<not> accepts E P lb old precursor cur q'"
    and "accepts E P lb old precursor cur q"
  shows "\<exists>ipc. foldl (try_charge E P lb old precursor cur) st (before @ q # after) =
           claim P lb old cur q (extension_of E P lb old cur q) (st\<lparr>iso_peak_count := ipc\<rparr>)"
proof -
  obtain ipc where a: "foldl (try_charge E P lb old precursor cur) st before =
      st\<lparr>iso_peak_count := ipc\<rparr>"
    using charges_rejected[OF assms(1,4)] by blast
  let ?st1 = "st\<lparr>iso_peak_count := ipc\<rparr>"
  have f1: "features ?st1 ! cur = - 1" using assms(1) by simp
  obtain ipc' where b: "try_charge E P lb old precursor cur ?st1 q =
      claim P lb old cur q (extension_of E P lb old cur q) (?st1\<lparr>iso_peak_count := ipc'\<rparr>)"
    using try_charge_accepted[OF f1 assms(5)] by blast
  let ?st2 = "claim P lb old cur q (extension_of E P lb old cur q) (st\<lparr>iso_peak_count := ipc'\<rparr>)"
  have b': "try_charge E P lb old precursor cur ?st1 q = ?st2" using b by simp
  have "features ?st2 ! cur = feature_number st"
    using claim_features_seed[of cur "st\<lparr>iso_peak_count := ipc'\<rparr>" "extension_of E P lb old cur q"]
      assms(2) extension_of_seed by simp
  then have "features ?st2 ! cur \<noteq> - 1" using assms(3) by simp
  then have "foldl (try_charge E P lb old precursor cur) ?st2 after = ?st2"
    by (rule charges_claimed_id)
  then have "foldl (try_charge E P lb old precursor cur) st (before @ q # after) = ?st2"
    using a b' by simp
  then show ?thesis by blast
qed

lemma rev_upto_split:
  "lo \<le> q \<Longrightarrow> q \<le> hi \<Longrightarrow> rev [lo..hi] = rev [q + 1..hi] @ q # rev [lo..q - 1]"
  using upto_split3[of lo q hi] by simp

lemma reset_intensity_fields:
  "features (reset_intensity P old st cur) = features st"
  "mono_isotopic_peak (reset_intensity P old st cur) = mono_isotopic_peak st"
  "iso_peak_count (reset_intensity P old st cur) = iso_peak_count st"
  "feature_number (reset_intensity P old st cur) = feature_number st"
  "accepted (reset_intensity P old st cur) = accepted st"
  by (simp_all add: reset_intensity_def)

lemma process_peak_reset:
  "process_peak E P lb old precursor st cur =
     foldl (try_charge E P lb old precursor cur) (reset_intensity P old st cur)
       (rev [min_charge P..max_charge P])"
  by (simp add: process_peak_def reset_intensity_def)

lemma process_peak_claimed:
  "features st ! cur \<noteq> - 1 \<Longrightarrow>
   process_peak E P lb old precursor st cur = reset_intensity P old st cur"
  unfolding process_peak_reset
  by (rule charges_claimed_id) (simp add: reset_intensity_fields)

lemma process_peak_none_accepted:
  assumes "features st ! cur = - 1"
    and "\<forall>q. min_charge P \<le> q \<and> q \<le> max_charge P \<longrightarrow> \<not> accepts E P lb old precursor cur q"
  shows "\<exists>ipc. process_peak E P lb old precursor st cur =
           (reset_intensity P old st cur)\<lparr>iso_peak_count := ipc\<rparr>"
  unfolding process_peak_reset
  using assms by (intro charges_rejected) (simp_all add: reset_intensity_fields)

lemma process_peak_first_accepted:
  assumes "features st ! cur = - 1" and "cur < length (features st)"
    and "feature_number st \<noteq> - 1"
    and "min_charge P \<le> q" and "q \<le> max_charge P"
    and "accepts E P lb old precursor cur q"
    and "\<forall>q'. q < q' \<and> q' \<le> max_charge P \<longrightarrow> \<not> accepts E P lb old precursor cur q'"
  shows "\<exists>ipc. process_peak E P lb old precursor st cur =
           claim P lb old cur q (extension_of E P lb old cur q)
             ((reset_intensity P old st cur)\<lparr>iso_peak_count := ipc\<rparr>)"
proof -
  have "\<forall>q' \<in> set (rev [q + 1..max_charge P]). \<not> accepts E P lb old precursor cur q'"
    using assms(7) by simp
  then show ?thesis
    unfolding process_peak_reset rev_upto_split[OF assms(4,5)]
    using assms(1,2,3,6)
    by (intro charges_first_accepted) (simp_all add: reset_intensity_fields)
qed

text \<open>What one round of either loop over the seeds does to the state.\<close>

lemma process_peak_shape:
  assumes "cur < length (features st)" and "feature_number st \<noteq> - 1"
  shows "\<exists>ipc.
           process_peak E P lb old precursor st cur =
             (reset_intensity P old st cur)\<lparr>iso_peak_count := ipc\<rparr> \<and>
           (features st ! cur = - 1 \<longrightarrow>
              (\<forall>q. min_charge P \<le> q \<and> q \<le> max_charge P \<longrightarrow>
                 \<not> accepts E P lb old precursor cur q)) \<or>
           features st ! cur = - 1 \<and>
           (\<exists>q. min_charge P \<le> q \<and> q \<le> max_charge P \<and>
              accepts E P lb old precursor cur q \<and>
              process_peak E P lb old precursor st cur =
                claim P lb old cur q (extension_of E P lb old cur q)
                  ((reset_intensity P old st cur)\<lparr>iso_peak_count := ipc\<rparr>))"
proof (cases "features st ! cur = - 1")
  case False
  have "process_peak E P lb old precursor st cur =
          (reset_intensity P old st cur)\<lparr>iso_peak_count := iso_peak_count (reset_intensity P old st cur)\<rparr>"
    using process_peak_claimed[OF False, of E P lb old precursor] by simp
  then show ?thesis using False by blast
next
  case True
  let ?S = "{q. min_charge P \<le> q \<and> q \<le> max_charge P \<and> accepts E P lb old precursor cur q}"
  show ?thesis
  proof (cases "?S = {}")
    case True
    then have "\<forall>q. min_charge P \<le> q \<and> q \<le> max_charge P \<longrightarrow>
                 \<not> accepts E P lb old precursor cur q" by blast
    then show ?thesis
      using process_peak_none_accepted[OF \<open>features st ! cur = - 1\<close>, of P E lb old precursor]
      by blast
  next
    case False
    have fin: "finite ?S"
      by (rule finite_subset[of _ "{min_charge P..max_charge P}"]) auto
    define q where "q = Max ?S"
    have qin: "q \<in> ?S" unfolding q_def using fin False by (rule Max_in)
    have top: "\<forall>q'. q < q' \<and> q' \<le> max_charge P \<longrightarrow> \<not> accepts E P lb old precursor cur q'"
    proof (intro allI impI notI)
      fix q' assume a: "q < q' \<and> q' \<le> max_charge P" and b: "accepts E P lb old precursor cur q'"
      have "q' \<in> ?S" using a b qin by simp
      then have "q' \<le> q" unfolding q_def using fin by (intro Max_ge)
      then show False using a by simp
    qed
    obtain ipc where "process_peak E P lb old precursor st cur =
           claim P lb old cur q (extension_of E P lb old cur q)
             ((reset_intensity P old st cur)\<lparr>iso_peak_count := ipc\<rparr>)"
      using process_peak_first_accepted[OF True assms(1,2) _ _ _ top] qin by blast
    then show ?thesis using True qin by blast
  qed
qed

lemma process_peak_features_kept:
  assumes "cur < length (features st)" and "feature_number st \<noteq> - 1"
    and "j < length (features st)" and "features st ! j \<noteq> - 1"
  shows "features (process_peak E P lb old precursor st cur) ! j \<noteq> - 1"
  using process_peak_shape[OF assms(1,2), of E P lb old precursor] assms(2,3,4)
  by (auto simp: claim_fields reset_intensity_fields foldl_update_nth split: if_splits)

lemma process_peak_complete:
  assumes "cur < length (features st)" and "feature_number st \<noteq> - 1"
    and "features (process_peak E P lb old precursor st cur) ! cur = - 1"
  shows "\<forall>q. min_charge P \<le> q \<and> q \<le> max_charge P \<longrightarrow> \<not> accepts E P lb old precursor cur q"
proof -
  have "features (claim P lb old cur q (extension_of E P lb old cur q)
          ((reset_intensity P old st cur)\<lparr>iso_peak_count := ipc\<rparr>)) ! cur \<noteq> - 1" for q ipc
    using claim_features_seed[of cur "(reset_intensity P old st cur)\<lparr>iso_peak_count := ipc\<rparr>"
        "extension_of E P lb old cur q" P lb old q] assms(1,2) extension_of_seed
    by (simp add: reset_intensity_fields)
  then show ?thesis
    using process_peak_shape[OF assms(1,2), of E P lb old precursor] assms(3)
    by (auto simp: reset_intensity_fields)
qed

lemma process_peak_claimed_inv:
  assumes "claimed_inv old st" and "cur < length old" and "length (features st) = length old"
    and "feature_number st \<noteq> - 1"
  shows "claimed_inv old (process_peak E P lb old precursor st cur)"
proof -
  have cur: "cur < length (features st)" using assms(2,3) by simp
  from process_peak_shape[OF cur assms(4), of E P lb old precursor]
  obtain ipc where
    "process_peak E P lb old precursor st cur =
       (reset_intensity P old st cur)\<lparr>iso_peak_count := ipc\<rparr> \<or>
     features st ! cur = - 1 \<and>
     (\<exists>q. process_peak E P lb old precursor st cur =
             claim P lb old cur q (extension_of E P lb old cur q)
               ((reset_intensity P old st cur)\<lparr>iso_peak_count := ipc\<rparr>))"
    by blast
  then show ?thesis
  proof (elim disjE conjE exE)
    assume "process_peak E P lb old precursor st cur =
       (reset_intensity P old st cur)\<lparr>iso_peak_count := ipc\<rparr>"
    then show ?thesis using assms(1) by (simp add: claimed_inv_def reset_intensity_fields)
  next
    fix q
    assume free: "features st ! cur = - 1"
      and eq: "process_peak E P lb old precursor st cur =
             claim P lb old cur q (extension_of E P lb old cur q)
               ((reset_intensity P old st cur)\<lparr>iso_peak_count := ipc\<rparr>)"
    let ?exts = "extension_of E P lb old cur q"
    let ?new = "\<lparr>run_seed = cur, run_charge = q, run_extensions = ?exts, run_seed_pass = lb\<rparr>"
    let ?st' = "process_peak E P lb old precursor st cur"
    have acc: "accepted ?st' = accepted st @ [?new]"
      using eq by (simp add: claim_fields reset_intensity_fields)
    have feat: "\<And>j. j < length old \<Longrightarrow>
        features ?st' ! j = (if j \<in> set ?exts then feature_number st else features st ! j)"
      using eq assms(3) by (simp add: claim_fields reset_intensity_fields foldl_update_nth)
    have members: "\<And>r e. r \<in> set (accepted st) \<Longrightarrow> e \<in> set (run_extensions r) \<Longrightarrow>
        e < length old \<Longrightarrow> features st ! e \<noteq> - 1"
      using assms(1) by (auto simp: claimed_inv_def)
    have fresh: "\<And>i j. i < j \<Longrightarrow> j < length (accepted st) \<Longrightarrow>
        run_seed (accepted st ! j) \<notin> set (run_extensions (accepted st ! i))"
      using assms(1) by (auto simp: claimed_inv_def)
    have m': "\<forall>r \<in> set (accepted ?st'). \<forall>e \<in> set (run_extensions r).
         e < length old \<longrightarrow> features ?st' ! e \<noteq> - 1"
      using acc feat members assms(4) by auto
    have f': "\<forall>i j. i < j \<and> j < length (accepted ?st') \<longrightarrow>
         run_seed (accepted ?st' ! j) \<notin> set (run_extensions (accepted ?st' ! i))"
    proof (intro allI impI)
      fix i j assume ij: "i < j \<and> j < length (accepted ?st')"
      show "run_seed (accepted ?st' ! j) \<notin> set (run_extensions (accepted ?st' ! i))"
      proof (cases "j < length (accepted st)")
        case True
        then show ?thesis using ij fresh[of i j] acc by (simp add: nth_append)
      next
        case False
        then have j: "j = length (accepted st)" using ij acc by simp
        have i: "i < length (accepted st)" using ij j by simp
        have "cur \<notin> set (run_extensions (accepted st ! i))"
          using members[of "accepted st ! i" cur] i free assms(2) by auto
        then show ?thesis using acc i j by (simp add: nth_append)
      qed
    qed
    show ?thesis unfolding claimed_inv_def using m' f' by blast
  qed
qed

lemma discovery_inv_features:
  "discovery_inv E P old precursor st \<Longrightarrow>
   length (features st) = length old \<and> feature_number st \<noteq> - 1"
  by (auto simp: discovery_inv_def)

lemma process_peaks_claimed:
  assumes iso: "2 \<le> min_isopeaks P" "min_isopeaks P \<le> max_isopeaks P"
  shows "discovery_inv E P old precursor st \<Longrightarrow> claimed_inv old st \<Longrightarrow>
     set xs \<subseteq> {..<length old} \<Longrightarrow>
     (\<forall>x \<in> D. x < length old \<and>
        (features st ! x = - 1 \<longrightarrow>
           (\<forall>q. min_charge P \<le> q \<and> q \<le> max_charge P \<longrightarrow>
              \<not> accepts E P lb old precursor x q))) \<Longrightarrow>
     claimed_inv old (foldl (process_peak E P lb old precursor) st xs) \<and>
     (\<forall>j < length old. features st ! j \<noteq> - 1 \<longrightarrow>
        features (foldl (process_peak E P lb old precursor) st xs) ! j \<noteq> - 1) \<and>
     (\<forall>x \<in> D \<union> set xs.
        features (foldl (process_peak E P lb old precursor) st xs) ! x = - 1 \<longrightarrow>
          (\<forall>q. min_charge P \<le> q \<and> q \<le> max_charge P \<longrightarrow>
             \<not> accepts E P lb old precursor x q))"
proof (induction xs arbitrary: st D)
  case Nil
  then show ?case by simp
next
  case (Cons x xs)
  let ?st1 = "process_peak E P lb old precursor st x"
  have x: "x < length old" using Cons.prems(3) by simp
  note f = discovery_inv_features[OF Cons.prems(1)]
  have xf: "x < length (features st)" using x f by simp
  have inv1: "discovery_inv E P old precursor ?st1"
    using Cons.prems(1) x iso by (rule process_peak_inv)
  have cl1: "claimed_inv old ?st1"
    using Cons.prems(2) x f by (intro process_peak_claimed_inv) simp_all
  have kept: "\<And>j. j < length old \<Longrightarrow> features st ! j \<noteq> - 1 \<Longrightarrow> features ?st1 ! j \<noteq> - 1"
    using xf f by (intro process_peak_features_kept) simp_all
  have cx: "features ?st1 ! x = - 1 \<Longrightarrow>
      (\<forall>q. min_charge P \<le> q \<and> q \<le> max_charge P \<longrightarrow> \<not> accepts E P lb old precursor x q)"
    using xf f by (intro process_peak_complete[of x st]) simp_all
  have D1: "\<forall>y \<in> insert x D. y < length old \<and>
        (features ?st1 ! y = - 1 \<longrightarrow>
           (\<forall>q. min_charge P \<le> q \<and> q \<le> max_charge P \<longrightarrow>
              \<not> accepts E P lb old precursor y q))"
    using Cons.prems(4) x cx kept by blast
  have xs: "set xs \<subseteq> {..<length old}" using Cons.prems(3) by simp
  note ih = Cons.IH[OF inv1 cl1 xs D1]
  show ?case using ih kept by auto
qed

lemma claimed_inv_init: "claimed_inv old (init_discovery n)"
  by (simp add: claimed_inv_def init_discovery_def)

lemma seed_pass_inv:
  assumes "2 \<le> min_isopeaks P" "min_isopeaks P \<le> max_isopeaks P"
    and "set high_intensity_peaks \<subseteq> {..<length (peaks spec)}"
  shows "discovery_inv E P (peaks spec) (precursor_mass_of E spec)
           (seed_pass E P spec high_intensity_peaks)"
  unfolding seed_pass_def
  using assms by (intro process_peaks_inv init_discovery_inv) auto

lemma seed_pass_claimed:
  assumes "2 \<le> min_isopeaks P" "min_isopeaks P \<le> max_isopeaks P"
    and "set high_intensity_peaks \<subseteq> {..<length (peaks spec)}"
  shows "claimed_inv (peaks spec) (seed_pass E P spec high_intensity_peaks) \<and>
     (\<forall>x \<in> set high_intensity_peaks.
        features (seed_pass E P spec high_intensity_peaks) ! x = - 1 \<longrightarrow>
          (\<forall>q. min_charge P \<le> q \<and> q \<le> max_charge P \<longrightarrow>
             \<not> accepts E P True (peaks spec) (precursor_mass_of E spec) x q))"
  unfolding seed_pass_def
  using process_peaks_claimed[OF assms(1,2) init_discovery_inv claimed_inv_init assms(3),
      where D = "{}" and lb = True and E = E and precursor = "precursor_mass_of E spec"]
  by simp

lemma discover_claimed:
  assumes "2 \<le> min_isopeaks P" "min_isopeaks P \<le> max_isopeaks P"
    and "set high_intensity_peaks \<subseteq> {..<length (peaks spec)}"
  shows "claimed_inv (peaks spec) (discover E P spec high_intensity_peaks) \<and>
     (\<forall>x < length (peaks spec).
        features (discover E P spec high_intensity_peaks) ! x = - 1 \<longrightarrow>
          (\<forall>q. min_charge P \<le> q \<and> q \<le> max_charge P \<longrightarrow>
             \<not> accepts E P False (peaks spec) (precursor_mass_of E spec) x q))"
proof -
  have up: "set [0..<length (peaks spec)] \<subseteq> {..<length (peaks spec)}" by auto
  show ?thesis
    unfolding discover_def exhaustive_pass_def
    using process_peaks_claimed[OF assms(1,2) seed_pass_inv[OF assms]
        conjunct1[OF seed_pass_claimed[OF assms]] up,
        where D = "{}" and lb = False and E = E]
    by simp
qed


section \<open>The scenarios, evaluated\<close>

lemma overlap_filter: "filterPeakSpectrum spec_collaborators (peaks overlap_spectrum) = [1]"
  by code_simp

lemma overlap_seed_pass:
  "seed_pass spec_collaborators overlap_params overlap_spectrum [1] =
     \<lparr>mono_isotopic_peak = [0, 2, 0], features = [- 1, 0, 0],
      mono_iso_peak_intensity = [0, 0, 0], iso_peak_count = [1, 2, 1], feature_number = 1,
      accepted = [\<lparr>run_seed = 1, run_charge = 2, run_extensions = [1, 2], run_seed_pass = True\<rparr>]\<rparr>"
  by code_simp

lemma overlap_discover:
  "discover spec_collaborators overlap_params overlap_spectrum [1] =
     \<lparr>mono_isotopic_peak = [1, 2, 0], features = [1, 0, 1],
      mono_iso_peak_intensity = [0, 0, 0], iso_peak_count = [2, 2, 1], feature_number = 2,
      accepted = [\<lparr>run_seed = 1, run_charge = 2, run_extensions = [1, 2], run_seed_pass = True\<rparr>,
                  \<lparr>run_seed = 0, run_charge = 1, run_extensions = [0, 2], run_seed_pass = False\<rparr>]\<rparr>"
  by code_simp

lemma overlap_discover_unfiltered:
  "discover spec_collaborators overlap_params overlap_spectrum [] =
     \<lparr>mono_isotopic_peak = [1, 2, 0], features = [0, 1, 1],
      mono_iso_peak_intensity = [0, 0, 0], iso_peak_count = [2, 2, 1], feature_number = 2,
      accepted = [\<lparr>run_seed = 0, run_charge = 1, run_extensions = [0, 2], run_seed_pass = False\<rparr>,
                  \<lparr>run_seed = 1, run_charge = 2, run_extensions = [1, 2], run_seed_pass = False\<rparr>]\<rparr>"
  by code_simp

lemma sum_filter: "filterPeakSpectrum spec_collaborators (peaks sum_spectrum) = [0]"
  by code_simp

lemma sum_seed_pass:
  "seed_pass spec_collaborators sum_params sum_spectrum [0] =
     \<lparr>mono_isotopic_peak = [1, 0, 0], features = [0, 0, - 1],
      mono_iso_peak_intensity = [1500, 0, 0], iso_peak_count = [2, 1, 1], feature_number = 1,
      accepted = [\<lparr>run_seed = 0, run_charge = 1, run_extensions = [0, 1], run_seed_pass = True\<rparr>]\<rparr>"
  by code_simp

lemma sum_result:
  "deisotopeAndSingleCharge spec_collaborators sum_params sum_spectrum =
     (None,
      \<lparr>peaks = [\<lparr>getMZ = 200, getIntensity = 1000\<rparr>, \<lparr>getMZ = 203.5, getIntensity = 10\<rparr>],
       getIntegerDataArrays =
         [\<lparr>getName = ''charge'', ida_data = [1, 0]\<rparr>,
          \<lparr>getName = ''iso_peak_count'', ida_data = [2, 1]\<rparr>],
       getPrecursors = []\<rparr>)"
  by code_simp

lemma triplet_result:
  "deisotopeAndSingleCharge spec_collaborators triplet_params triplet_spectrum =
     (None,
      \<lparr>peaks = [\<lparr>getMZ = 198.992723533229, getIntensity = 1000\<rparr>],
       getIntegerDataArrays =
         [\<lparr>getName = ''charge'', ida_data = [2]\<rparr>,
          \<lparr>getName = ''iso_peak_count'', ida_data = [3]\<rparr>],
       getPrecursors = []\<rparr>)"
  by code_simp

lemma scenario_filter: "filterPeakSpectrum spec_collaborators (peaks scenario_spectrum) = [0]"
  by code_simp

lemma scenario_discover:
  "discover spec_collaborators scenario_params scenario_spectrum [0] =
     \<lparr>mono_isotopic_peak = [1, 0, 0], features = [0, - 1, 0],
      mono_iso_peak_intensity = [0, 0, 0], iso_peak_count = [2, 1, 1], feature_number = 1,
      accepted = [\<lparr>run_seed = 0, run_charge = 1, run_extensions = [0, 2], run_seed_pass = True\<rparr>]\<rparr>"
  by code_simp

lemma scenario_result:
  "deisotopeAndSingleCharge spec_collaborators scenario_params scenario_spectrum =
     (None,
      scenario_spectrum
        \<lparr>getIntegerDataArrays :=
           [\<lparr>getName = ''charge'', ida_data = [1, 0, 0]\<rparr>,
            \<lparr>getName = ''iso_peak_count'', ida_data = [2, 1, 1]\<rparr>]\<rparr>)"
  by code_simp

lemma scenario_result_keep_only:
  "deisotopeAndSingleCharge spec_collaborators (scenario_params\<lparr>keep_only_deisotoped := True\<rparr>)
     scenario_spectrum =
     (None,
      scenario_spectrum
        \<lparr>getIntegerDataArrays :=
           [\<lparr>getName = ''charge'', ida_data = [1, 0, 0]\<rparr>,
            \<lparr>getName = ''iso_peak_count'', ida_data = [2, 1, 1]\<rparr>]\<rparr>)"
  by code_simp

lemma single_peak_filter:
  "filterPeakSpectrum spec_collaborators (peaks single_peak_spectrum) = [0]"
  by code_simp

lemma single_peak_discover:
  "discover spec_collaborators wide_params single_peak_spectrum [0] =
     \<lparr>mono_isotopic_peak = [3], features = [0], mono_iso_peak_intensity = [0],
      iso_peak_count = [2], feature_number = 1,
      accepted = [\<lparr>run_seed = 0, run_charge = 3, run_extensions = [0, 0], run_seed_pass = True\<rparr>]\<rparr>"
  by code_simp



lemma scenario_discover_unfiltered:
  "discover spec_collaborators scenario_params scenario_spectrum [] =
     \<lparr>mono_isotopic_peak = [1, 0, 0], features = [0, - 1, 0],
      mono_iso_peak_intensity = [0, 0, 0], iso_peak_count = [2, 1, 1], feature_number = 1,
      accepted = [\<lparr>run_seed = 0, run_charge = 1, run_extensions = [0, 2], run_seed_pass = False\<rparr>]\<rparr>"
  by code_simp

lemma single_peak_discover_unfiltered:
  "discover spec_collaborators wide_params single_peak_spectrum [] =
     \<lparr>mono_isotopic_peak = [3], features = [0], mono_iso_peak_intensity = [0],
      iso_peak_count = [2], feature_number = 1,
      accepted = [\<lparr>run_seed = 0, run_charge = 3, run_extensions = [0, 0], run_seed_pass = False\<rparr>]\<rparr>"
  by code_simp

lemma triplet_result_unfiltered:
  "deisotopeAndSingleCharge (spec_collaborators\<lparr>filterPeakSpectrum := \<lambda>ps. []\<rparr>)
     triplet_params triplet_spectrum =
     (None,
      \<lparr>peaks = [\<lparr>getMZ = 198.992723533229, getIntensity = 1000\<rparr>],
       getIntegerDataArrays =
         [\<lparr>getName = ''charge'', ida_data = [2]\<rparr>,
          \<lparr>getName = ''iso_peak_count'', ida_data = [3]\<rparr>],
       getPrecursors = []\<rparr>)"
  by code_simp

lemma sum_result_unfiltered:
  "deisotopeAndSingleCharge (spec_collaborators\<lparr>filterPeakSpectrum := \<lambda>ps. []\<rparr>)
     sum_params sum_spectrum =
     (None,
      \<lparr>peaks = [\<lparr>getMZ = 200, getIntensity = 1500\<rparr>, \<lparr>getMZ = 203.5, getIntensity = 10\<rparr>],
       getIntegerDataArrays =
         [\<lparr>getName = ''charge'', ida_data = [1, 0]\<rparr>,
          \<lparr>getName = ''iso_peak_count'', ida_data = [2, 1]\<rparr>],
       getPrecursors = []\<rparr>)"
  by code_simp


section \<open>The claims\<close>

subsection \<open>C1: a peak in at most one isotope group\<close>

text \<open>
  C1, as the code has it. The guard \<^verbatim>\<open>features[current_peak] == -1\<close> (lines 160 and
  260) protects seeds only. A peak that carries a feature number, as the seed or as a
  member of a run, is never processed as a seed again, in either pass: a round of the
  loop on such a peak does no more than reset its entry of
  \<^verbatim>\<open>mono_iso_peak_intensity\<close>. So the seed of an accepted run is in \<^verbatim>\<open>extensions\<close> of no
  run accepted before it, the seeds are pairwise different, and the seed and every member
  of an accepted run carry a feature number at the end. The peaks that \<^verbatim>\<open>findNearest\<close>
  returns are pushed to \<^verbatim>\<open>extensions\<close> with no look at \<^verbatim>\<open>features\<close> (lines 216 and
  307), so a member of one run can be a member of a later run too.
\<close>

theorem C1_seed_claimed_once:
  assumes "2 \<le> min_isopeaks P" and "min_isopeaks P \<le> max_isopeaks P"
    and "set high_intensity_peaks \<subseteq> {..<length (peaks spec)}"
    and "1 \<le> min_charge P"
  shows "(\<forall>st current_peak lb.
            features st ! current_peak \<noteq> - 1 \<longrightarrow>
            process_peak E P lb (peaks spec) (precursor_mass_of E spec) st current_peak =
              reset_intensity P (peaks spec) st current_peak) \<and>
         (\<forall>i j. i < j \<and> j < length (accepted (discover E P spec high_intensity_peaks)) \<longrightarrow>
            run_seed (accepted (discover E P spec high_intensity_peaks) ! j)
              \<notin> set (run_extensions (accepted (discover E P spec high_intensity_peaks) ! i))) \<and>
         distinct (map run_seed (accepted (discover E P spec high_intensity_peaks))) \<and>
         (\<forall>r \<in> set (accepted (discover E P spec high_intensity_peaks)).
            run_seed r < length (peaks spec) \<and>
            features (discover E P spec high_intensity_peaks) ! run_seed r \<noteq> - 1 \<and>
            (\<forall>e \<in> set (run_extensions r).
               e < length (peaks spec) \<longrightarrow>
               features (discover E P spec high_intensity_peaks) ! e \<noteq> - 1))"
proof -
  let ?D = "discover E P spec high_intensity_peaks"
  have a: "\<forall>st current_peak lb.
            features st ! current_peak \<noteq> - 1 \<longrightarrow>
            process_peak E P lb (peaks spec) (precursor_mass_of E spec) st current_peak =
              reset_intensity P (peaks spec) st current_peak"
    by (simp add: process_peak_claimed)
  have c: "claimed_inv (peaks spec) ?D"
    using discover_claimed[OF assms(1-3), of E] by simp
  have b: "\<forall>i j. i < j \<and> j < length (accepted ?D) \<longrightarrow>
            run_seed (accepted ?D ! j) \<notin> set (run_extensions (accepted ?D ! i))"
    using c unfolding claimed_inv_def by blast
  have m: "\<forall>r \<in> set (accepted ?D). \<forall>e \<in> set (run_extensions r).
             e < length (peaks spec) \<longrightarrow> features ?D ! e \<noteq> - 1"
    using c unfolding claimed_inv_def by blast
  have d: "distinct (map run_seed (accepted ?D)) \<and>
           (\<forall>r \<in> set (accepted ?D).
              run_seed r < length (peaks spec) \<and> features ?D ! run_seed r \<noteq> - 1)"
    using discover_inv[OF assms(1-3), of E] unfolding discovery_inv_def run_inv_def by blast
  show ?thesis using a b d m by blast
qed

text \<open>
  C1 at the overlapping peaks, where the filter retains the middle peak: peak 2, a member
  of the run of the seed pass, is not processed as a seed in the exhaustive pass, and
  the seed of the second run is not in the first run.
\<close>

theorem C1_seed_claimed_once_witness:
  "set [1] \<subseteq> {..<length (peaks overlap_spectrum)} \<and>
   features (seed_pass spec_collaborators overlap_params overlap_spectrum [1]) ! 2 \<noteq> - 1 \<and>
   process_peak spec_collaborators overlap_params False (peaks overlap_spectrum)
       (precursor_mass_of spec_collaborators overlap_spectrum)
       (seed_pass spec_collaborators overlap_params overlap_spectrum [1]) 2 =
     reset_intensity overlap_params (peaks overlap_spectrum)
       (seed_pass spec_collaborators overlap_params overlap_spectrum [1]) 2 \<and>
   run_seed (accepted (discover spec_collaborators overlap_params overlap_spectrum [1]) ! 1)
     \<notin> set (run_extensions
              (accepted (discover spec_collaborators overlap_params overlap_spectrum [1]) ! 0)) \<and>
   distinct (map run_seed
     (accepted (discover spec_collaborators overlap_params overlap_spectrum [1])))"
proof -
  let ?S = "seed_pass spec_collaborators overlap_params overlap_spectrum [1]"
  let ?D = "discover spec_collaborators overlap_params overlap_spectrum [1]"
  have a: "2 \<le> min_isopeaks overlap_params" by (simp add: overlap_params_def)
  have b: "min_isopeaks overlap_params \<le> max_isopeaks overlap_params"
    by (simp add: overlap_params_def)
  have c: "set [1] \<subseteq> {..<length (peaks overlap_spectrum)}"
    by (simp add: overlap_spectrum_def)
  have d: "1 \<le> min_charge overlap_params" by (simp add: overlap_params_def)
  have f: "features ?S ! 2 \<noteq> - 1" unfolding overlap_seed_pass by simp
  have l: "(0::nat) < 1 \<and> 1 < length (accepted ?D)" unfolding overlap_discover by simp
  note t = C1_seed_claimed_once[OF a b c d, of spec_collaborators]
  have s: "process_peak spec_collaborators overlap_params False (peaks overlap_spectrum)
       (precursor_mass_of spec_collaborators overlap_spectrum) ?S 2 =
     reset_intensity overlap_params (peaks overlap_spectrum) ?S 2"
    using t f by blast
  have n: "run_seed (accepted ?D ! 1) \<notin> set (run_extensions (accepted ?D ! 0))"
    using t l by blast
  have e: "distinct (map run_seed (accepted ?D))" using t by blast
  show ?thesis using c f s n e by blast
qed

text \<open>
  C1 as stated fails. At the overlapping peaks the seed pass puts peak 2 into the run of
  seed 1 (feature 0); the exhaustive pass then puts it into the run of seed 0 and
  overwrites its feature number with 1. Without any high intensity seed the same peak
  is claimed first by seed 0 and then by seed 1.
\<close>

theorem C1_counterexample:
  "features (seed_pass spec_collaborators overlap_params overlap_spectrum
      (filterPeakSpectrum spec_collaborators (peaks overlap_spectrum))) ! 2 = 0 \<and>
   features (discover spec_collaborators overlap_params overlap_spectrum
      (filterPeakSpectrum spec_collaborators (peaks overlap_spectrum))) ! 2 = 1 \<and>
   map run_extensions (accepted (discover spec_collaborators overlap_params overlap_spectrum
      (filterPeakSpectrum spec_collaborators (peaks overlap_spectrum)))) = [[1, 2], [0, 2]] \<and>
   map run_extensions (accepted (discover spec_collaborators overlap_params overlap_spectrum []))
     = [[0, 2], [1, 2]]"
  unfolding overlap_filter overlap_seed_pass overlap_discover overlap_discover_unfiltered
  by simp

subsection \<open>C2: the summed intensity of a seed\<close>

text \<open>
  C2 at a seed of the high intensity pass, with \<^verbatim>\<open>add_up_intensity\<close> set. The seed pass
  accepts the run of peaks 0 and 1 and accumulates 1000 + 500 in
  \<^verbatim>\<open>mono_iso_peak_intensity[0]\<close>. The exhaustive pass assigns
  \<^verbatim>\<open>mono_iso_peak_intensity[current_peak] = getIntensity()\<close> for every peak before it looks
  at \<^verbatim>\<open>features\<close> (lines 249 to 252), so the sum is lost: the peak leaves with its own
  intensity 1000. Were the same run accepted in the exhaustive pass (no high intensity
  seed), the peak would leave with 1500.
\<close>

theorem C2_seed_pass_sum_overwritten:
  "accepted (seed_pass spec_collaborators sum_params sum_spectrum
      (filterPeakSpectrum spec_collaborators (peaks sum_spectrum))) =
     [\<lparr>run_seed = 0, run_charge = 1, run_extensions = [0, 1], run_seed_pass = True\<rparr>] \<and>
   mono_iso_peak_intensity (seed_pass spec_collaborators sum_params sum_spectrum
      (filterPeakSpectrum spec_collaborators (peaks sum_spectrum))) ! 0 = 1500 \<and>
   map getIntensity (peaks sum_spectrum) = [1000, 500, 10] \<and>
   peaks (snd (deisotopeAndSingleCharge spec_collaborators sum_params sum_spectrum)) =
     [\<lparr>getMZ = 200, getIntensity = 1000\<rparr>, \<lparr>getMZ = 203.5, getIntensity = 10\<rparr>] \<and>
   peaks (snd (deisotopeAndSingleCharge (spec_collaborators\<lparr>filterPeakSpectrum := \<lambda>ps. []\<rparr>)
                 sum_params sum_spectrum)) =
     [\<lparr>getMZ = 200, getIntensity = 1500\<rparr>, \<lparr>getMZ = 203.5, getIntensity = 10\<rparr>]"
  unfolding sum_filter sum_seed_pass sum_result sum_result_unfiltered
  by (simp add: sum_spectrum_def)

subsection \<open>C3: peaks below 154.0\<close>

text \<open>
  C3 at the charge 2 triplet with \<^verbatim>\<open>make_single_charged\<close> set. All three peaks lie
  below 154.0. The loop of lines 387 to 400 reads the m/z that line 367 has already
  rewritten: peak 0 now stands at 198.99, the loop leaves at once, and the peaks at
  100.5014 and 101.0027 are not in the output, with the filter's seed and without any.
\<close>

theorem C3_low_mz_peaks_dropped:
  "map getMZ (peaks triplet_spectrum) = [100, 100.5014, 101.0027] \<and>
   peaks (snd (deisotopeAndSingleCharge spec_collaborators triplet_params triplet_spectrum)) =
     [\<lparr>getMZ = 198.992723533229, getIntensity = 1000\<rparr>] \<and>
   peaks (snd (deisotopeAndSingleCharge (spec_collaborators\<lparr>filterPeakSpectrum := \<lambda>ps. []\<rparr>)
                 triplet_params triplet_spectrum)) =
     [\<lparr>getMZ = 198.992723533229, getIntensity = 1000\<rparr>]"
  unfolding triplet_result triplet_result_unfiltered
  by (simp add: triplet_spectrum_def)

subsection \<open>C4: the three-peak scenario\<close>

text \<open>
  C4, as the code has it. The peak at 101.0 lies within 0.05 of 100.0 + 1.0033548378, so
  the seed at 100.0 is accepted with charge 1 and a run of two peaks; the peak at 100.50
  stays unassigned. All three peaks are below 154.0 and leave the call, whether
  \<^verbatim>\<open>keep_only_deisotoped\<close> is set or not.
\<close>

theorem C4_scenario_output:
  "deisotopeAndSingleCharge spec_collaborators scenario_params scenario_spectrum =
     (None,
      scenario_spectrum
        \<lparr>getIntegerDataArrays :=
           [\<lparr>getName = ''charge'', ida_data = [1, 0, 0]\<rparr>,
            \<lparr>getName = ''iso_peak_count'', ida_data = [2, 1, 1]\<rparr>]\<rparr>) \<and>
   deisotopeAndSingleCharge spec_collaborators (scenario_params\<lparr>keep_only_deisotoped := True\<rparr>)
     scenario_spectrum =
     (None,
      scenario_spectrum
        \<lparr>getIntegerDataArrays :=
           [\<lparr>getName = ''charge'', ida_data = [1, 0, 0]\<rparr>,
            \<lparr>getName = ''iso_peak_count'', ida_data = [2, 1, 1]\<rparr>]\<rparr>)"
  using scenario_result scenario_result_keep_only by (rule conjI)

text \<open>
  C4 as stated fails: a run is accepted, with the filter's seed and without any.
\<close>

theorem C4_counterexample:
  "accepted (discover spec_collaborators scenario_params scenario_spectrum
      (filterPeakSpectrum spec_collaborators (peaks scenario_spectrum))) =
     [\<lparr>run_seed = 0, run_charge = 1, run_extensions = [0, 2], run_seed_pass = True\<rparr>] \<and>
   accepted (discover spec_collaborators scenario_params scenario_spectrum []) =
     [\<lparr>run_seed = 0, run_charge = 1, run_extensions = [0, 2], run_seed_pass = False\<rparr>]"
  unfolding scenario_filter scenario_discover scenario_discover_unfiltered
  by simp

subsection \<open>C5: the invalid-argument error\<close>

text \<open>
  C5. For a sorted spectrum the call throws \<^verbatim>\<open>IllegalArgument\<close> exactly when
  \<^verbatim>\<open>min_isopeaks < 2\<close>, \<^verbatim>\<open>max_isopeaks < 2\<close> or \<^verbatim>\<open>min_isopeaks > max_isopeaks\<close>, and
  the spectrum is then as it was.
\<close>

theorem C5_illegal_argument:
  assumes "isSorted spec"
  shows "(fst (deisotopeAndSingleCharge E P spec) = Some IllegalArgument \<longleftrightarrow>
            (min_isopeaks P < 2 \<or> max_isopeaks P < 2 \<or> max_isopeaks P < min_isopeaks P)) \<and>
         (fst (deisotopeAndSingleCharge E P spec) = Some IllegalArgument \<longrightarrow>
            snd (deisotopeAndSingleCharge E P spec) = spec)"
  using assms by (simp add: deisotopeAndSingleCharge_def Let_def)

text \<open>
  C5 at the three-peak scenario with \<^verbatim>\<open>min_isopeaks = 1\<close>.
\<close>

theorem C5_illegal_argument_witness:
  "isSorted scenario_spectrum \<and>
   fst (deisotopeAndSingleCharge spec_collaborators (scenario_params\<lparr>min_isopeaks := 1\<rparr>)
          scenario_spectrum) = Some IllegalArgument \<and>
   snd (deisotopeAndSingleCharge spec_collaborators (scenario_params\<lparr>min_isopeaks := 1\<rparr>)
          scenario_spectrum) = scenario_spectrum"
proof -
  have s: "isSorted scenario_spectrum"
    by (simp add: isSorted_def scenario_spectrum_def)
  show ?thesis
    using s C5_illegal_argument[OF s, of spec_collaborators "scenario_params\<lparr>min_isopeaks := 1\<rparr>"]
    by (simp add: scenario_params_def)
qed

subsection \<open>C6: the highest accepted charge\<close>



subsection \<open>C7: the lower bound on the ratio\<close>



subsection \<open>C8: the recorded run length\<close>

text \<open>
  C8, as the code has it. With \<^verbatim>\<open>annotate_iso_peak_count\<close> set, for every accepted run
  \<^verbatim>\<open>iso_peak_count\<close> of the seed is the length of \<^verbatim>\<open>extensions\<close>, that is the number of
  isotope positions matched, and it lies between \<^verbatim>\<open>min_isopeaks\<close> and \<^verbatim>\<open>max_isopeaks\<close>.
  A peak index counts once for each position at which \<^verbatim>\<open>findNearest\<close> returned it, so
  the number of different peaks in the run is at most the recorded length.
\<close>

theorem C8_run_length_recorded:
  assumes "2 \<le> min_isopeaks P" and "min_isopeaks P \<le> max_isopeaks P"
    and "set high_intensity_peaks \<subseteq> {..<length (peaks spec)}"
    and "annotate_iso_peak_count P" and "1 \<le> min_charge P"
  shows "\<forall>r \<in> set (accepted (discover E P spec high_intensity_peaks)).
           iso_peak_count (discover E P spec high_intensity_peaks) ! run_seed r =
             length (run_extensions r) \<and>
           min_isopeaks P \<le> length (run_extensions r) \<and>
           length (run_extensions r) \<le> max_isopeaks P \<and>
           card (set (run_extensions r)) \<le> length (run_extensions r)"
proof
  fix r assume r: "r \<in> set (accepted (discover E P spec high_intensity_peaks))"
  have "run_inv E P (peaks spec) (precursor_mass_of E spec)
          (discover E P spec high_intensity_peaks) r"
    using discover_inv[OF assms(1-3), of E] r by (simp add: discovery_inv_def)
  then have a: "accepts E P (run_seed_pass r) (peaks spec) (precursor_mass_of E spec)
                 (run_seed r) (run_charge r)"
    and e: "run_extensions r =
              extension_of E P (run_seed_pass r) (peaks spec) (run_seed r) (run_charge r)"
    and c: "iso_peak_count (discover E P spec high_intensity_peaks) ! run_seed r =
             length (run_extensions r)"
    using assms(4) by (simp_all add: run_inv_def)
  have "min_isopeaks P \<le> length (run_extensions r) \<and> length (run_extensions r) \<le> max_isopeaks P"
    using accepted_run_length[OF a assms(2)] assms(1,2) e by simp
  then show "iso_peak_count (discover E P spec high_intensity_peaks) ! run_seed r =
             length (run_extensions r) \<and>
           min_isopeaks P \<le> length (run_extensions r) \<and>
           length (run_extensions r) \<le> max_isopeaks P \<and>
           card (set (run_extensions r)) \<le> length (run_extensions r)"
    using c by (simp add: card_length)
qed

text \<open>
  C8 at the overlapping peaks: the run of seed 1 has two peaks.
\<close>

theorem C8_run_length_recorded_witness:
  "set [1] \<subseteq> {..<length (peaks overlap_spectrum)} \<and>
   annotate_iso_peak_count overlap_params \<and>
   iso_peak_count (discover spec_collaborators overlap_params overlap_spectrum [1]) ! 1 = 2 \<and>
   min_isopeaks overlap_params \<le> 2 \<and> 2 \<le> max_isopeaks overlap_params"
proof -
  let ?D = "discover spec_collaborators overlap_params overlap_spectrum [1]"
  let ?r = "\<lparr>run_seed = 1, run_charge = 2, run_extensions = [1, 2], run_seed_pass = True\<rparr>"
  have a: "2 \<le> min_isopeaks overlap_params" by (simp add: overlap_params_def)
  have b: "min_isopeaks overlap_params \<le> max_isopeaks overlap_params"
    by (simp add: overlap_params_def)
  have c: "set [1] \<subseteq> {..<length (peaks overlap_spectrum)}"
    by (simp add: overlap_spectrum_def)
  have d: "annotate_iso_peak_count overlap_params" by (simp add: overlap_params_def)
  have m: "?r \<in> set (accepted ?D)" unfolding overlap_discover by simp
  have e: "1 \<le> min_charge overlap_params" by (simp add: overlap_params_def)
  from C8_run_length_recorded[OF a b c d e, of spec_collaborators] m
  have "iso_peak_count ?D ! run_seed ?r = length (run_extensions ?r) \<and>
        min_isopeaks overlap_params \<le> length (run_extensions ?r) \<and>
        length (run_extensions ?r) \<le> max_isopeaks overlap_params"
    by blast
  then show ?thesis using c d by simp
qed

text \<open>
  C8 as stated fails. With a tolerance of 0.5 Da and charge 3 the peak nearest to
  100.0 + 1.0033548378 / 3 in a spectrum of one peak is that peak itself: the run is
  accepted with \<^verbatim>\<open>extensions = [0, 0]\<close> and a recorded length of 2, and holds one peak.
\<close>

theorem C8_counterexample:
  "length (peaks single_peak_spectrum) = 1 \<and>
   accepted (discover spec_collaborators wide_params single_peak_spectrum
      (filterPeakSpectrum spec_collaborators (peaks single_peak_spectrum))) =
     [\<lparr>run_seed = 0, run_charge = 3, run_extensions = [0, 0], run_seed_pass = True\<rparr>] \<and>
   iso_peak_count (discover spec_collaborators wide_params single_peak_spectrum
      (filterPeakSpectrum spec_collaborators (peaks single_peak_spectrum))) = [2] \<and>
   accepted (discover spec_collaborators wide_params single_peak_spectrum []) =
     [\<lparr>run_seed = 0, run_charge = 3, run_extensions = [0, 0], run_seed_pass = False\<rparr>] \<and>
   iso_peak_count (discover spec_collaborators wide_params single_peak_spectrum []) = [2]"
  unfolding single_peak_filter single_peak_discover single_peak_discover_unfiltered
  by (simp add: single_peak_spectrum_def)

subsection \<open>C9: the empty spectrum\<close>

text \<open>
  C9. On an empty spectrum with valid isotope counts the call throws nothing, appends
  the requested arrays \<^verbatim>\<open>"charge"\<close> and \<^verbatim>\<open>"iso_peak_count"\<close>, both empty, and returns.
\<close>

theorem C9_empty_spectrum:
  assumes "peaks spec = []" and "2 \<le> min_isopeaks P" and "min_isopeaks P \<le> max_isopeaks P"
  shows "deisotopeAndSingleCharge E P spec =
          (None,
           spec\<lparr>getIntegerDataArrays :=
                  getIntegerDataArrays spec
                  @ (if annotate_charge P then [\<lparr>getName = ''charge'', ida_data = []\<rparr>] else [])
                  @ (if annotate_iso_peak_count P
                     then [\<lparr>getName = ''iso_peak_count'', ida_data = []\<rparr>] else [])\<rparr>)"
  using assms by (simp add: deisotopeAndSingleCharge_def Let_def isSorted_def reserve_ida_def)

text \<open>
  C9 with both arrays requested.
\<close>

theorem C9_empty_spectrum_witness:
  "peaks empty_spectrum = [] \<and>
   deisotopeAndSingleCharge spec_collaborators scenario_params empty_spectrum =
     (None,
      \<lparr>peaks = [],
       getIntegerDataArrays =
         [\<lparr>getName = ''charge'', ida_data = []\<rparr>, \<lparr>getName = ''iso_peak_count'', ida_data = []\<rparr>],
       getPrecursors = []\<rparr>)"
proof -
  have e: "peaks empty_spectrum = []" by (simp add: empty_spectrum_def)
  have a: "2 \<le> min_isopeaks scenario_params" by (simp add: scenario_params_def)
  have b: "min_isopeaks scenario_params \<le> max_isopeaks scenario_params"
    by (simp add: scenario_params_def)
  show ?thesis
    using e C9_empty_spectrum[OF e a b, of spec_collaborators]
    by (simp add: scenario_params_def empty_spectrum_def)
qed

subsection \<open>C10: the output is no longer than the input\<close>

text \<open>
  C10. When the filter returns indices of the spectrum, the call leaves at most as many
  peaks as it found, and \<^verbatim>\<open>select_idx\<close> at line 404 holds pairwise different indices of
  the spectrum, whatever the discovery phase has found.
\<close>

theorem C10_output_not_longer:
  assumes "set (filterPeakSpectrum E (peaks spec)) \<subseteq> {..<length (peaks spec)}"
  shows "length (peaks (snd (deisotopeAndSingleCharge E P spec))) \<le> length (peaks spec) \<and>
         distinct (selection (filterPeakSpectrum E (peaks spec)) (rewrite E P st ci ii spec)) \<and>
         set (selection (filterPeakSpectrum E (peaks spec)) (rewrite E P st ci ii spec))
           \<subseteq> {..<length (peaks spec)}"
proof -
  have sel: "length (selection (filterPeakSpectrum E (peaks sp')) (rewrite E P st' ci' ii' sp'))
               \<le> length (peaks spec)"
    if "peaks sp' = peaks spec" for sp' st' ci' ii'
    using selection_distinct[of "filterPeakSpectrum E (peaks sp')" sp' E P st' ci' ii'] assms that
    by (intro distinct_below_length) simp_all
  have "length (peaks (snd (deisotopeAndSingleCharge E P spec))) \<le> length (peaks spec)"
    by (simp add: deisotopeAndSingleCharge_def Let_def sortByPosition_peaks_length
        select_peaks_length reserve_ida_peaks sel)
  then show ?thesis
    using selection_distinct[OF assms, of E P st ci ii] by simp
qed

text \<open>
  C10 at the three-peak scenario.
\<close>

theorem C10_output_not_longer_witness:
  "set (filterPeakSpectrum spec_collaborators (peaks scenario_spectrum))
     \<subseteq> {..<length (peaks scenario_spectrum)} \<and>
   length (peaks (snd (deisotopeAndSingleCharge spec_collaborators scenario_params
                         scenario_spectrum))) \<le> 3"
proof -
  have h: "set (filterPeakSpectrum spec_collaborators (peaks scenario_spectrum))
             \<subseteq> {..<length (peaks scenario_spectrum)}"
    by (simp add: scenario_filter) (simp add: scenario_spectrum_def)
  have n: "length (peaks scenario_spectrum) = 3" by (simp add: scenario_spectrum_def)
  show ?thesis
    using h n C10_output_not_longer[OF h, of scenario_params] by simp
qed

end
